theory Spec2Isabelle
  imports Main "HOL-Library.Monad_Syntax"
begin

section \<open>JavaScript values as the converter sees them\<close>

text \<open>
  The converter of \<^verbatim>\<open>src/App.jsx\<close> works on the result of \<^verbatim>\<open>JSON.parse\<close>: null,
  booleans, numbers, strings, arrays and plain objects. Reading a property that is not
  there yields \<^verbatim>\<open>undefined\<close>, so the value type has it too (JSON.parse itself never
  produces it).

  \<^item> A string is its UTF-8 byte sequence. The code only concatenates strings, compares
    them with ASCII constants and tests them for emptiness.
  \<^item> A number is kept as the text \<^verbatim>\<open>String(n)\<close> gives for it (\<^verbatim>\<open>5\<close>, \<^verbatim>\<open>1.5\<close>,
    \<^verbatim>\<open>1e+21\<close>): the code never computes with an input number, it only converts it to
    text and tests its truthiness. Both zeros print as \<^verbatim>\<open>0\<close> and JSON has no NaN.
  \<^item> An object is the list of its own properties, each key once.
  \<^item> Every exception the code can throw on such values is a TypeError; a computation
    that throws is \<open>None\<close>.
\<close>

datatype jsval =
    JUndefined
  | JNull
  | JBool bool
  | JNum string
  | JStr string
  | JArr "jsval list"
  | JObj "(string \<times> jsval) list"

definition nullish :: "jsval \<Rightarrow> bool" where
  "nullish v = (v = JUndefined \<or> v = JNull)"

fun truthy :: "jsval \<Rightarrow> bool" where
  "truthy JUndefined = False"
| "truthy JNull = False"
| "truthy (JBool b) = b"
| "truthy (JNum n) = (n \<noteq> ''0'')"
| "truthy (JStr s) = (s \<noteq> [])"
| "truthy (JArr xs) = True"
| "truthy (JObj kvs) = True"

text \<open>
  \<^verbatim>\<open>v?.k\<close> for the data properties the code reads (parameterRequests, stageRequests,
  taskRequests, label, name, data, choices, type, rules, input, show, parameters,
  mandatory, verificationType). None of these names is defined on a prototype, so on
  an array, a string, a number or a boolean the read gives undefined, as it does on
  null and undefined through the optional chain.
\<close>

fun getOpt :: "jsval \<Rightarrow> string \<Rightarrow> jsval" where
  "getOpt (JObj kvs) k = (case map_of kvs k of Some v \<Rightarrow> v | None \<Rightarrow> JUndefined)"
| "getOpt v k = JUndefined"

text \<open>\<^verbatim>\<open>v.k\<close> for the same names: reading a property of null or undefined throws.\<close>

definition get :: "jsval \<Rightarrow> string \<Rightarrow> jsval option" where
  "get v k = (if nullish v then None else Some (getOpt v k))"

text \<open>
  Truthiness of \<^verbatim>\<open>v?.length\<close>: the element count of an array, the length of a string,
  the own property of an object, undefined on anything else.
\<close>

fun lengthTruthy :: "jsval \<Rightarrow> bool" where
  "lengthTruthy (JArr xs) = (xs \<noteq> [])"
| "lengthTruthy (JStr s) = (s \<noteq> [])"
| "lengthTruthy (JObj kvs) = truthy (getOpt (JObj kvs) ''length'')"
| "lengthTruthy v = False"

text \<open>
  The receiver of \<^verbatim>\<open>forEach\<close>, \<^verbatim>\<open>map\<close> and \<^verbatim>\<open>join\<close>. Only arrays have these methods;
  on every other value the property is undefined or a JSON value, and calling it
  throws.
\<close>

fun arrayOf :: "jsval \<Rightarrow> jsval list option" where
  "arrayOf (JArr xs) = Some xs"
| "arrayOf v = None"

fun isArray :: "jsval \<Rightarrow> bool" where
  "isArray (JArr xs) = True"
| "isArray v = False"

text \<open>Concatenation of texts with a separator, as \<^verbatim>\<open>join\<close> does once the elements are text.\<close>

fun joinWith :: "string \<Rightarrow> string list \<Rightarrow> string" where
  "joinWith sep [] = []"
| "joinWith sep [s] = s"
| "joinWith sep (s # t # ts) = s @ sep @ joinWith sep (t # ts)"

text \<open>
  ToString. A plain object prints as \<^verbatim>\<open>[object Object]\<close> through
  Object.prototype.toString, unless it has an own property \<^verbatim>\<open>toString\<close>: that one is a
  JSON value, not callable, and the valueOf that is tried next returns no primitive, so
  the conversion throws. An array prints as its elements joined with a comma, where
  null and undefined elements print as the empty text.
\<close>

fun ToString :: "jsval \<Rightarrow> string option"
  and elementTexts :: "jsval list \<Rightarrow> string list option" where
  "ToString JUndefined = Some ''undefined''"
| "ToString JNull = Some ''null''"
| "ToString (JBool b) = Some (if b then ''true'' else ''false'')"
| "ToString (JNum n) = Some n"
| "ToString (JStr s) = Some s"
| "ToString (JArr xs) = map_option (joinWith '','') (elementTexts xs)"
| "ToString (JObj kvs) =
     (if map_of kvs ''toString'' = None then Some ''[object Object]'' else None)"
| "elementTexts [] = Some []"
| "elementTexts (x # xs) = do {
     s \<leftarrow> (if nullish x then Some [] else ToString x);
     ss \<leftarrow> elementTexts xs;
     Some (s # ss)
   }"

text \<open>\<^verbatim>\<open>xs.join(sep)\<close> on the elements of an array.\<close>

definition join :: "jsval list \<Rightarrow> string \<Rightarrow> string option" where
  "join xs sep = map_option (joinWith sep) (elementTexts xs)"

text \<open>\<^verbatim>\<open>xs.map(f)\<close> with a callback that may throw: the first throw ends the call.\<close>

fun map_js :: "('a \<Rightarrow> 'b option) \<Rightarrow> 'a list \<Rightarrow> 'b list option" where
  "map_js f [] = Some []"
| "map_js f (x # xs) = do { y \<leftarrow> f x; ys \<leftarrow> map_js f xs; Some (y # ys) }"

text \<open>
  \<^verbatim>\<open>xs.forEach(f)\<close> with a callback that updates the array \<^verbatim>\<open>csvRows\<close>: the array is
  passed through the calls, and a throw ends the loop.
\<close>

fun forEach :: "('a \<Rightarrow> 's \<Rightarrow> 's option) \<Rightarrow> 'a list \<Rightarrow> 's \<Rightarrow> 's option" where
  "forEach f [] s = Some s"
| "forEach f (x # xs) s = do { s' \<leftarrow> f x s; forEach f xs s' }"

section \<open>makeRow\<close>

text \<open>The bullet U+2022 of the options text, in UTF-8.\<close>

definition bullet :: string where
  "bullet = [CHR 0xE2, CHR 0x80, CHR 0xA2]"

text \<open>An output row: the fifteen keys of the object \<^verbatim>\<open>makeRow\<close> returns, in its order.\<close>

record row =
  Stage_Name :: jsval
  Activity_Name :: jsval
  Performer :: string
  Activity_Description_in_detail :: string
  Validations_Conditions :: string
  Instruction_Title :: jsval
  Field_Type :: string
  Activity_Parameter_Type :: jsval
  Configuration_Feasibility :: string
  Configuration_Feasibility_Notes :: string
  Configuration_Status :: string
  Verification_Status :: string
  Tester_Comments :: string
  Verification_B_Status :: string
  Tester_Comments_B :: string

text \<open>
  The object literal \<^verbatim>\<open>fieldLogic\<close>, once \<^verbatim>\<open>param.label\<close> has been converted to text
  by the template literals.
\<close>

definition fieldLogic :: "string \<Rightarrow> (string \<times> string) list" where
  "fieldLogic label =
    [(''SINGLE_SELECT'', ''Performer selects if '' @ label @ ''.''),
     (''MULTISELECT'', ''Performer selects one or more options for '' @ label @ ''.''),
     (''CHECKLIST'', ''Performer checks applicable items for '' @ label @ ''.''),
     (''SINGLE_LINE'', ''Performer enters '' @ label @ ''.''),
     (''MULTI_LINE'', ''Performer enters a detailed response for '' @ label @ ''.''),
     (''FILE_UPLOAD'', ''Performer uploads the required file(s) for '' @ label @ ''.''),
     (''RESOURCE'', ''Performer selects a resource for '' @ label @ ''.''),
     (''DATE'', ''Performer enters the date for '' @ label @ ''.''),
     (''INSTRUCTION'', ''Performer provides input for '' @ label @ ''.'')]"

text \<open>
  \<^verbatim>\<open>fieldLogic\<close> is an object literal, so a key it does not own is looked up on
  Object.prototype. These are the function-valued properties found there, each with
  the name of the function.
\<close>

definition objectPrototype :: "(string \<times> string) list" where
  "objectPrototype =
    [(''constructor'', ''Object''),
     (''__defineGetter__'', ''__defineGetter__''),
     (''__defineSetter__'', ''__defineSetter__''),
     (''hasOwnProperty'', ''hasOwnProperty''),
     (''__lookupGetter__'', ''__lookupGetter__''),
     (''__lookupSetter__'', ''__lookupSetter__''),
     (''isPrototypeOf'', ''isPrototypeOf''),
     (''propertyIsEnumerable'', ''propertyIsEnumerable''),
     (''toString'', ''toString''),
     (''valueOf'', ''valueOf''),
     (''toLocaleString'', ''toLocaleString'')]"

text \<open>
  The text of a built-in function, as V8 prints it. ECMAScript fixes only its form,
  which starts with the keyword \<^verbatim>\<open>function\<close>; engines differ in the white space
  of the body.
\<close>

definition nativeFunction :: "string \<Rightarrow> string" where
  "nativeFunction name = ''function '' @ name @ ''() { [native code] }''"

text \<open>
  The left operand of the \<^verbatim>\<open>+\<close> in \<^verbatim>\<open>desc\<close>, as text: \<^verbatim>\<open>obj[key]\<close> for an object literal
  \<open>obj\<close> of texts. An own property is its text, an inherited function prints its
  source, the accessor \<^verbatim>\<open>__proto__\<close> gives Object.prototype, which prints as a plain
  object, and a key found nowhere gives undefined.
\<close>

definition memberText :: "(string \<times> string) list \<Rightarrow> string \<Rightarrow> string" where
  "memberText obj key =
    (case map_of obj key of
       Some s \<Rightarrow> s
     | None \<Rightarrow>
        (case map_of objectPrototype key of
           Some f \<Rightarrow> nativeFunction f
         | None \<Rightarrow> if key = ''__proto__'' then ''[object Object]'' else ''undefined''))"

text \<open>
  \<^verbatim>\<open>options\<close> (lines 80 to 85): the names of \<^verbatim>\<open>param.data\<close> when it is an array, else
  of \<^verbatim>\<open>param.data?.choices\<close> when that is an array, joined with the bullet; else the
  empty text.
\<close>

definition options :: "jsval \<Rightarrow> string option" where
  "options param = do {
     d \<leftarrow> get param ''data'';
     if isArray d then do {
       ds \<leftarrow> arrayOf d;
       names \<leftarrow> map_js (\<lambda>d. get d ''name'') ds;
       join names ('' '' @ bullet @ '' '')
     } else if isArray (getOpt d ''choices'') then do {
       ds \<leftarrow> arrayOf (getOpt d ''choices'');
       names \<leftarrow> map_js (\<lambda>d. get d ''name'') ds;
       join names ('' '' @ bullet @ '' '')
     } else Some []
   }"

text \<open>
  \<^verbatim>\<open>desc\<close> (lines 87 to 89), given the text \<open>label\<close> of \<^verbatim>\<open>param.label\<close> and the text
  \<open>opts\<close> of \<^verbatim>\<open>options\<close>. The key \<^verbatim>\<open>param.type\<close> is converted to text for the lookup.
\<close>

definition desc :: "jsval \<Rightarrow> string \<Rightarrow> string \<Rightarrow> string option" where
  "desc param label opts = do {
     ty \<leftarrow> get param ''type'';
     key \<leftarrow> ToString ty;
     Some (memberText (fieldLogic label) key @
       (if opts \<noteq> [] then '' Available Options: '' @ bullet @ '' '' @ opts else []))
   }"

text \<open>
  The text \<^verbatim>\<open>${v?.join(", ")}\<close> of a template literal: undefined prints as
  \<^verbatim>\<open>undefined\<close> when the chain stops at a null or undefined \<open>v\<close>.
\<close>

definition joinOpt :: "jsval \<Rightarrow> string option" where
  "joinOpt v =
    (if nullish v then Some ''undefined''
     else do { xs \<leftarrow> arrayOf v; join xs '', '' })"

text \<open>The callback of \<^verbatim>\<open>map\<close> in \<^verbatim>\<open>rules\<close> (line 94), for one rule \<open>r\<close>.\<close>

definition ruleText :: "string \<Rightarrow> jsval \<Rightarrow> string option" where
  "ruleText label r = do {
     input \<leftarrow> get r ''input'';
     inputs \<leftarrow> joinOpt input;
     sh \<leftarrow> get r ''show'';
     shown \<leftarrow> joinOpt (getOpt sh ''parameters'');
     Some (''Visible if ['' @ label @ ''] is ['' @ inputs @ '']. Shows parameters: [''
           @ shown @ '']'')
   }"

text \<open>\<^verbatim>\<open>rules\<close> (lines 91 to 96): \<^verbatim>\<open>param.rules || []\<close>, mapped and joined.\<close>

definition rules :: "jsval \<Rightarrow> string \<Rightarrow> string option" where
  "rules param label = do {
     rs \<leftarrow> get param ''rules'';
     xs \<leftarrow> (if truthy rs then arrayOf rs else Some []);
     texts \<leftarrow> map_js (ruleText label) xs;
     Some (joinWith ''; '' texts)
   }"

text \<open>
  \<^verbatim>\<open>makeRow\<close> (lines 67 to 120). The template literals of \<^verbatim>\<open>fieldLogic\<close> read
  \<^verbatim>\<open>param.label\<close> first, which throws when \<^verbatim>\<open>param\<close> is null; past that point
  \<^verbatim>\<open>param\<close> is neither null nor undefined and its other properties are read without a
  throw.
\<close>

definition makeRow :: "jsval \<Rightarrow> jsval \<Rightarrow> jsval \<Rightarrow> row option" where
  "makeRow stage task param = do {
     lbl \<leftarrow> get param ''label'';
     label \<leftarrow> ToString lbl;
     opts \<leftarrow> options param;
     d \<leftarrow> desc param label opts;
     rl \<leftarrow> rules param label;
     Some \<lparr>
       Stage_Name = stage,
       Activity_Name = task,
       Performer = ''Performer/Verifier'',
       Activity_Description_in_detail = d,
       Validations_Conditions = rl,
       Instruction_Title = lbl,
       Field_Type = (if truthy (getOpt param ''mandatory'') then ''Mandatory'' else ''Optional''),
       Activity_Parameter_Type = getOpt param ''type'',
       Configuration_Feasibility = ''Configurable'',
       Configuration_Feasibility_Notes = ''N/A'',
       Configuration_Status = ''Configured'',
       Verification_Status =
         (if getOpt param ''verificationType'' = JStr ''SELF''
             \<or> getOpt param ''verificationType'' = JStr ''BOTH''
          then ''Enabled'' else ''Disabled''),
       Tester_Comments = ''N/A'',
       Verification_B_Status =
         (if getOpt param ''verificationType'' = JStr ''BOTH'' then ''Enabled'' else ''Disabled''),
       Tester_Comments_B = ''N/A''
     \<rparr>
   }"

section \<open>processWorkflow and the loop over the parsed documents\<close>

text \<open>The callback of the innermost \<^verbatim>\<open>forEach\<close> (lines 60 to 62).\<close>

definition paramStep :: "jsval \<Rightarrow> jsval \<Rightarrow> jsval \<Rightarrow> row list \<Rightarrow> row list option" where
  "paramStep stage task param csvRows = do {
     sn \<leftarrow> get stage ''name'';
     tn \<leftarrow> get task ''name'';
     r \<leftarrow> makeRow sn tn param;
     Some (csvRows @ [r])
   }"

text \<open>The callback for one task (lines 59 to 63): \<^verbatim>\<open>task.parameterRequests?.forEach\<close>.\<close>

definition taskStep :: "jsval \<Rightarrow> jsval \<Rightarrow> row list \<Rightarrow> row list option" where
  "taskStep stage task csvRows = do {
     pr \<leftarrow> get task ''parameterRequests'';
     if nullish pr then Some csvRows
     else do { ps \<leftarrow> arrayOf pr; forEach (paramStep stage task) ps csvRows }
   }"

text \<open>The callback for one stage (lines 58 to 64): \<^verbatim>\<open>stage.taskRequests?.forEach\<close>.\<close>

definition stageStep :: "jsval \<Rightarrow> row list \<Rightarrow> row list option" where
  "stageStep stage csvRows = do {
     tr \<leftarrow> get stage ''taskRequests'';
     if nullish tr then Some csvRows
     else do { ts \<leftarrow> arrayOf tr; forEach (taskStep stage) ts csvRows }
   }"

text \<open>The callback for one job-form parameter (lines 53 to 55).\<close>

definition formStep :: "jsval \<Rightarrow> row list \<Rightarrow> row list option" where
  "formStep p csvRows = do {
     l \<leftarrow> get p ''label'';
     r \<leftarrow> makeRow (JStr ''Create Job Form'') l p;
     Some (csvRows @ [r])
   }"

definition processWorkflow :: "jsval \<Rightarrow> row list \<Rightarrow> row list option" where
  "processWorkflow wfl csvRows = do {
     pr \<leftarrow> get wfl ''parameterRequests'';
     rows1 \<leftarrow> (if lengthTruthy pr
               then do { ps \<leftarrow> arrayOf pr; forEach formStep ps csvRows }
               else Some csvRows);
     sr \<leftarrow> get wfl ''stageRequests'';
     if nullish sr then Some rows1
     else do { ss \<leftarrow> arrayOf sr; forEach stageStep ss rows1 }
   }"

text \<open>
  \<^verbatim>\<open>handleFileUpload\<close>: a parsed document contributes its elements when it is an array
  and itself otherwise (lines 32 and 37); the workflows collected from all documents
  are processed in order into one fresh array (lines 40 and 41).
\<close>

definition documentObjects :: "jsval \<Rightarrow> jsval list" where
  "documentObjects parsed = (case parsed of JArr xs \<Rightarrow> xs | _ \<Rightarrow> [parsed])"

definition jsonObjects :: "jsval list \<Rightarrow> jsval list" where
  "jsonObjects documents = concat (map documentObjects documents)"

definition processAll :: "jsval list \<Rightarrow> row list option" where
  "processAll wfs = forEach processWorkflow wfs []"

definition convert :: "jsval list \<Rightarrow> row list option" where
  "convert documents = processAll (jsonObjects documents)"

section \<open>The data model and the traversal order, for the statements\<close>

text \<open>The elements of a property that holds an array; nothing when it holds anything else.\<close>

definition elems :: "jsval \<Rightarrow> jsval list" where
  "elems v = (case v of JArr xs \<Rightarrow> xs | _ \<Rightarrow> [])"

text \<open>
  The parameter contexts of a workflow in the order of the specification: the job-form
  parameters under the stage label \<^verbatim>\<open>Create Job Form\<close> with their own label as task
  label, then stage by stage and task by task the parameters of the tasks.
\<close>

definition formContexts :: "jsval \<Rightarrow> (jsval \<times> jsval \<times> jsval) list" where
  "formContexts wfl =
     map (\<lambda>p. (JStr ''Create Job Form'', getOpt p ''label'', p))
       (elems (getOpt wfl ''parameterRequests''))"

definition taskContexts :: "jsval \<Rightarrow> jsval \<Rightarrow> (jsval \<times> jsval \<times> jsval) list" where
  "taskContexts stage task =
     map (\<lambda>param. (getOpt stage ''name'', getOpt task ''name'', param))
       (elems (getOpt task ''parameterRequests''))"

definition stageContexts :: "jsval \<Rightarrow> (jsval \<times> jsval \<times> jsval) list" where
  "stageContexts stage = concat (map (taskContexts stage) (elems (getOpt stage ''taskRequests'')))"

definition contexts :: "jsval \<Rightarrow> (jsval \<times> jsval \<times> jsval) list" where
  "contexts wfl =
     formContexts wfl @ concat (map stageContexts (elems (getOpt wfl ''stageRequests'')))"

text \<open>The row of a context, when \<^verbatim>\<open>makeRow\<close> returns one.\<close>

definition rowOf :: "jsval \<times> jsval \<times> jsval \<Rightarrow> row option" where
  "rowOf c = (case c of (stage, task, param) \<Rightarrow> makeRow stage task param)"

text \<open>The number of parameters of a workflow, counted as the row-count property counts them.\<close>

definition paramCount :: "jsval \<Rightarrow> nat" where
  "paramCount wfl =
     length (elems (getOpt wfl ''parameterRequests''))
     + sum_list (map (\<lambda>stage.
         sum_list (map (\<lambda>task. length (elems (getOpt task ''parameterRequests'')))
           (elems (getOpt stage ''taskRequests''))))
         (elems (getOpt wfl ''stageRequests'')))"

text \<open>
  The shapes of the data model (section 3 of the specification), as predicates on parsed
  JSON. A sequence is an array, and a sequence that may be absent is an array, null or
  undefined. Labels, names and types are primitive values. The \<^verbatim>\<open>data\<close> of a parameter
  is constrained only where the code reads option entries from it.
\<close>

fun primitive :: "jsval \<Rightarrow> bool" where
  "primitive (JArr xs) = False"
| "primitive (JObj kvs) = False"
| "primitive v = True"

fun isObject :: "jsval \<Rightarrow> bool" where
  "isObject (JObj kvs) = True"
| "isObject v = False"

definition optionalArray :: "(jsval \<Rightarrow> bool) \<Rightarrow> jsval \<Rightarrow> bool" where
  "optionalArray P v = (nullish v \<or> (isArray v \<and> list_all P (elems v)))"

definition isOptionEntry :: "jsval \<Rightarrow> bool" where
  "isOptionEntry d = (isObject d \<and> primitive (getOpt d ''name''))"

definition isData :: "jsval \<Rightarrow> bool" where
  "isData d =
     (if isArray d then list_all isOptionEntry (elems d)
      else if isArray (getOpt d ''choices'') then list_all isOptionEntry (elems (getOpt d ''choices''))
      else True)"

definition isRule :: "jsval \<Rightarrow> bool" where
  "isRule r =
     (isObject r \<and> optionalArray primitive (getOpt r ''input'')
      \<and> optionalArray primitive (getOpt (getOpt r ''show'') ''parameters''))"

definition isParameter :: "jsval \<Rightarrow> bool" where
  "isParameter p =
     (isObject p \<and> primitive (getOpt p ''label'') \<and> primitive (getOpt p ''type'')
      \<and> isData (getOpt p ''data'') \<and> optionalArray isRule (getOpt p ''rules''))"

definition isTask :: "jsval \<Rightarrow> bool" where
  "isTask t = (isObject t \<and> optionalArray isParameter (getOpt t ''parameterRequests''))"

definition isStage :: "jsval \<Rightarrow> bool" where
  "isStage s = (isObject s \<and> optionalArray isTask (getOpt s ''taskRequests''))"

definition isWorkflow :: "jsval \<Rightarrow> bool" where
  "isWorkflow w =
     (isObject w \<and> optionalArray isParameter (getOpt w ''parameterRequests'')
      \<and> optionalArray isStage (getOpt w ''stageRequests''))"

text \<open>
  The option entries of a parameter as the specification selects them, and their
  \<^verbatim>\<open>name\<close> fields in order.
\<close>

definition optionEntries :: "jsval \<Rightarrow> jsval list" where
  "optionEntries param =
     (if isArray (getOpt param ''data'') then elems (getOpt param ''data'')
      else if isArray (getOpt (getOpt param ''data'') ''choices'')
      then elems (getOpt (getOpt param ''data'') ''choices'')
      else [])"

definition optionNames :: "jsval \<Rightarrow> jsval list" where
  "optionNames param = map (\<lambda>d. getOpt d ''name'') (optionEntries param)"

text \<open>
  A rule of the data model: its \<^verbatim>\<open>input\<close> and its \<^verbatim>\<open>show.parameters\<close>, each a sequence
  of texts or missing.
\<close>

datatype rule = Rule (input: "string list option") (shown: "string list option")

text \<open>
  How a rule is read off a JSON value. A list is missing when the value is null or
  undefined, and it is the texts of the elements when the value is an array. A rule
  object may hold any other keys, and \<^verbatim>\<open>show\<close> may be absent or hold no
  \<^verbatim>\<open>parameters\<close>.
\<close>

fun listView :: "jsval \<Rightarrow> string list option \<Rightarrow> bool" where
  "listView v None = nullish v"
| "listView v (Some xs) = (case v of JArr es \<Rightarrow> elementTexts es = Some xs | _ \<Rightarrow> False)"

fun ruleView :: "jsval \<Rightarrow> rule \<Rightarrow> bool" where
  "ruleView v (Rule i s) =
     (\<not> nullish v \<and> listView (getOpt v ''input'') i
      \<and> listView (getOpt (getOpt v ''show'') ''parameters'') s)"

text \<open>The text between the brackets of a rendered rule, for a list that may be missing.\<close>

fun listText :: "string list option \<Rightarrow> string" where
  "listText None = ''undefined''"
| "listText (Some xs) = joinWith '', '' xs"

definition renderedRule :: "string \<Rightarrow> rule \<Rightarrow> string" where
  "renderedRule label ru =
     ''Visible if ['' @ label @ ''] is ['' @ listText (input ru)
       @ '']. Shows parameters: ['' @ listText (shown ru) @ '']''"

text \<open>The nine keys of the template table.\<close>

definition recognizedTypes :: "string list" where
  "recognizedTypes =
     [''SINGLE_SELECT'', ''MULTISELECT'', ''CHECKLIST'', ''SINGLE_LINE'', ''MULTI_LINE'',
      ''FILE_UPLOAD'', ''RESOURCE'', ''DATE'', ''INSTRUCTION'']"

text \<open>The names Object.prototype defines.\<close>

definition inheritedNames :: "string list" where
  "inheritedNames = ''__proto__'' # map fst objectPrototype"

section \<open>Concrete inputs\<close>

text \<open>
  \<^verbatim>\<open>{"type": "SINGLE_SELECT", "label": "Priority", "data": [{"name": "Low"}, {"name": "High"}]}\<close>
\<close>

definition priorityParam :: jsval where
  "priorityParam =
     JObj [(''type'', JStr ''SINGLE_SELECT''), (''label'', JStr ''Priority''),
           (''data'', JArr [JObj [(''name'', JStr ''Low'')], JObj [(''name'', JStr ''High'')]])]"

text \<open>
  \<^verbatim>\<open>{"parameterRequests": [{"label": "Full Name", "type": "SINGLE_LINE"}],
    "stageRequests": [{"name": "Review", "taskRequests":
       [{"name": "Approve", "parameterRequests": [<priorityParam>]}]}]}\<close>
\<close>

definition exampleWorkflow :: jsval where
  "exampleWorkflow =
     JObj [(''parameterRequests'',
              JArr [JObj [(''label'', JStr ''Full Name''), (''type'', JStr ''SINGLE_LINE'')]]),
           (''stageRequests'',
              JArr [JObj [(''name'', JStr ''Review''),
                          (''taskRequests'',
                             JArr [JObj [(''name'', JStr ''Approve''),
                                         (''parameterRequests'', JArr [priorityParam])]])]])]"

text \<open>
  \<^verbatim>\<open>{"label": "Status", "type": "SINGLE_LINE",
    "rules": [{"id": "r1", "label": "Inner", "input": ["Yes"],
               "show": {"parameters": ["Comment"]}},
              {"input": null, "show": {}}]}\<close>
\<close>

definition statusParam :: jsval where
  "statusParam =
     JObj [(''label'', JStr ''Status''), (''type'', JStr ''SINGLE_LINE''),
           (''rules'',
              JArr [JObj [(''id'', JStr ''r1''), (''label'', JStr ''Inner''),
                          (''input'', JArr [JStr ''Yes'']),
                          (''show'', JObj [(''parameters'', JArr [JStr ''Comment''])])],
                    JObj [(''input'', JNull), (''show'', JObj [])]])]"

text \<open>\<^verbatim>\<open>{"label": "Status", "type": "SINGLE_LINE", "rules": [{}]}\<close>\<close>

definition bareRuleParam :: jsval where
  "bareRuleParam =
     JObj [(''label'', JStr ''Status''), (''type'', JStr ''SINGLE_LINE''),
           (''rules'', JArr [JObj []])]"

text \<open>\<^verbatim>\<open>{"type": "SINGLE_SELECT", "label": "P", "data": [{"name": ""}]}\<close>\<close>

definition emptyNameParam :: jsval where
  "emptyNameParam =
     JObj [(''type'', JStr ''SINGLE_SELECT''), (''label'', JStr ''P''),
           (''data'', JArr [JObj [(''name'', JStr [])]])]"

text \<open>\<^verbatim>\<open>{"label": "Sign-off", "type": "INSTRUCTION", "verificationType": "SELF"}\<close>\<close>

definition selfVerifiedParam :: jsval where
  "selfVerifiedParam =
     JObj [(''label'', JStr ''Sign-off''), (''type'', JStr ''INSTRUCTION''),
           (''verificationType'', JStr ''SELF'')]"

text \<open>\<^verbatim>\<open>{"label": "B", "type": "DATE"}\<close>\<close>

definition dateParam :: jsval where
  "dateParam = JObj [(''label'', JStr ''B''), (''type'', JStr ''DATE'')]"

text \<open>\<^verbatim>\<open>{"parameterRequests": [<dateParam>]}\<close>\<close>

definition dateWorkflow :: jsval where
  "dateWorkflow = JObj [(''parameterRequests'', JArr [dateParam])]"

text \<open>
  \<^verbatim>\<open>{"parameterRequests": [{"label": "A", "type": "DATE", "data": [null]}, <dateParam>]}\<close>
\<close>

definition nullEntryWorkflow :: jsval where
  "nullEntryWorkflow =
     JObj [(''parameterRequests'',
              JArr [JObj [(''label'', JStr ''A''), (''type'', JStr ''DATE''),
                          (''data'', JArr [JNull])],
                    dateParam])]"

text \<open>\<^verbatim>\<open>{"type": "constructor", "label": "x"}\<close>\<close>

definition constructorParam :: jsval where
  "constructorParam = JObj [(''type'', JStr ''constructor''), (''label'', JStr ''x'')]"

text \<open>\<^verbatim>\<open>{"type": "SLIDER", "label": "Level", "data": [{"name": "a"}]}\<close>\<close>

definition sliderParam :: jsval where
  "sliderParam =
     JObj [(''type'', JStr ''SLIDER''), (''label'', JStr ''Level''),
           (''data'', JArr [JObj [(''name'', JStr ''a'')]])]"

section \<open>Loops\<close>

lemma forEach_append: "forEach f (xs @ ys) s = Option.bind (forEach f xs s) (forEach f ys)"
  by (induction xs arbitrary: s) (auto split: bind_splits)

lemma forEach_appending:
  assumes "\<And>x acc. f x acc = map_option ((@) acc) (f x [])"
  shows "forEach f xs acc = map_option ((@) acc) (forEach f xs [])"
proof (induction xs arbitrary: acc)
  case Nil
  then show ?case by simp
next
  case (Cons x xs)
  show ?case
  proof (cases "f x []")
    case None
    then show ?thesis using assms[of x acc] by simp
  next
    case (Some n)
    have "forEach f (x # xs) acc = forEach f xs (acc @ n)"
      using assms[of x acc] Some by simp
    also have "\<dots> = map_option ((@) (acc @ n)) (forEach f xs [])"
      by (rule Cons.IH)
    also have "\<dots> = map_option ((@) acc) (map_option ((@) n) (forEach f xs []))"
      by (cases "forEach f xs []") simp_all
    also have "map_option ((@) n) (forEach f xs []) = forEach f xs n"
      by (rule Cons.IH[symmetric])
    also have "forEach f xs n = forEach f (x # xs) []"
      using Some by simp
    finally show ?thesis .
  qed
qed

lemma map_js_append:
  "map_js f (xs @ ys) = do { a \<leftarrow> map_js f xs; b \<leftarrow> map_js f ys; Some (a @ b) }"
  by (induction xs) (auto split: bind_splits)

lemma map_js_length: "map_js f xs = Some ys \<Longrightarrow> length ys = length xs"
  by (induction xs arbitrary: ys) (auto split: bind_splits)

lemma forEach_contexts:
  assumes step: "\<And>x acc rows. x \<in> set xs \<Longrightarrow> f x acc = Some rows \<Longrightarrow>
            \<exists>new. map_js mk (c x) = Some new \<and> rows = acc @ new"
    and run: "forEach f xs acc = Some rows"
  shows "\<exists>new. map_js mk (concat (map c xs)) = Some new \<and> rows = acc @ new"
  using step run
proof (induction xs arbitrary: acc rows)
  case Nil
  then show ?case by simp
next
  case (Cons x xs)
  from Cons.prems(2) obtain mid where m: "f x acc = Some mid" and r: "forEach f xs mid = Some rows"
    by (auto split: bind_splits)
  from Cons.prems(1)[of x acc mid] m obtain n1 where n1: "map_js mk (c x) = Some n1" "mid = acc @ n1"
    by auto
  have "\<exists>new. map_js mk (concat (map c xs)) = Some new \<and> rows = mid @ new"
    by (rule Cons.IH[OF _ r]) (use Cons.prems(1) in auto)
  then obtain n2 where n2: "map_js mk (concat (map c xs)) = Some n2" "rows = mid @ n2" by auto
  show ?case using n1 n2 by (simp add: map_js_append)
qed

lemma forEach_total:
  assumes "\<And>x acc. x \<in> set xs \<Longrightarrow> \<exists>rows. f x acc = Some rows"
  shows "\<exists>rows. forEach f xs acc = Some rows"
  using assms
proof (induction xs arbitrary: acc)
  case Nil
  then show ?case by simp
next
  case (Cons x xs)
  from Cons.prems[of x acc] obtain mid where "f x acc = Some mid" by auto
  moreover have "\<exists>rows. forEach f xs mid = Some rows"
    by (rule Cons.IH) (use Cons.prems in auto)
  ultimately show ?case by auto
qed


subsection \<open>The steps only append\<close>

lemma paramStep_appending:
  "paramStep stage task p acc = map_option ((@) acc) (paramStep stage task p [])"
  by (simp add: paramStep_def split: bind_splits)

lemma formStep_appending: "formStep p acc = map_option ((@) acc) (formStep p [])"
  by (simp add: formStep_def split: bind_splits)

lemma taskStep_appending: "taskStep stage task acc = map_option ((@) acc) (taskStep stage task [])"
proof -
  have "forEach (paramStep stage task) ps acc = map_option ((@) acc) (forEach (paramStep stage task) ps [])" for ps
    by (rule forEach_appending) (rule paramStep_appending)
  then show ?thesis
    by (simp add: taskStep_def split: bind_splits)
qed

lemma stageStep_appending: "stageStep stage acc = map_option ((@) acc) (stageStep stage [])"
proof -
  have "forEach (taskStep stage) ts acc = map_option ((@) acc) (forEach (taskStep stage) ts [])" for ts
    by (rule forEach_appending) (rule taskStep_appending)
  then show ?thesis
    by (simp add: stageStep_def split: bind_splits)
qed

lemma processWorkflow_appending:
  "processWorkflow wfl acc = map_option ((@) acc) (processWorkflow wfl [])"
proof -
  have a: "forEach formStep ps acc = map_option ((@) acc) (forEach formStep ps [])" for ps acc
    by (rule forEach_appending) (rule formStep_appending)
  have b: "forEach stageStep ss acc = map_option ((@) acc) (forEach stageStep ss [])" for ss acc
    by (rule forEach_appending) (rule stageStep_appending)
  show ?thesis
  proof (cases "get wfl ''parameterRequests''")
    case None
    then show ?thesis by (simp add: processWorkflow_def)
  next
    case (Some pr)
    note pr = this
    show ?thesis
    proof (cases "get wfl ''stageRequests''")
      case None
      then show ?thesis using pr by (simp add: processWorkflow_def get_def split: if_splits)
    next
      case (Some sr)
      define first where "first acc = (if lengthTruthy pr
               then do { ps \<leftarrow> arrayOf pr; forEach formStep ps acc }
               else Some acc)" for acc
      have f: "first acc = map_option ((@) acc) (first [])" for acc
        using a[of _ acc] by (cases "arrayOf pr") (simp_all add: first_def)
      define rest where "rest rows1 = (if nullish sr then Some rows1
            else do { ss \<leftarrow> arrayOf sr; forEach stageStep ss rows1 })" for rows1
      have r: "rest acc = map_option ((@) acc) (rest [])" for acc
        using b[of _ acc] by (cases "arrayOf sr") (simp_all add: rest_def)
      have pw: "processWorkflow wfl acc = Option.bind (first acc) rest" for acc
        using pr Some by (simp add: processWorkflow_def first_def rest_def[abs_def])
      show ?thesis
      proof (cases "first []")
        case None
        then show ?thesis using f[of acc] by (simp add: pw)
      next
        case (Some n)
        have "processWorkflow wfl acc = rest (acc @ n)" using f[of acc] Some by (simp add: pw)
        also have "\<dots> = map_option ((@) acc) (map_option ((@) n) (rest []))"
          using r[of "acc @ n"] by (cases "rest []") simp_all
        also have "map_option ((@) n) (rest []) = rest n" using r[of n] by simp
        also have "rest n = processWorkflow wfl []" using Some by (simp add: pw)
        finally show ?thesis .
      qed
    qed
  qed
qed


subsection \<open>The rows of a run are the rows of the contexts\<close>

lemma arrayOf_Some: "arrayOf v = Some xs \<Longrightarrow> v = JArr xs"
  by (cases v) simp_all

lemma elems_nullish: "nullish v \<Longrightarrow> elems v = []"
  by (auto simp: nullish_def elems_def)

lemma map_as_concat: "map g xs = concat (map (\<lambda>x. [g x]) xs)"
  by (induction xs) simp_all

lemma paramStep_contexts:
  assumes "paramStep stage task p acc = Some rows"
  shows "\<exists>new. map_js rowOf [(getOpt stage ''name'', getOpt task ''name'', p)] = Some new
           \<and> rows = acc @ new"
  using assms by (auto simp: paramStep_def get_def rowOf_def split: bind_splits if_splits)

lemma formStep_contexts:
  assumes "formStep p acc = Some rows"
  shows "\<exists>new. map_js rowOf [(JStr ''Create Job Form'', getOpt p ''label'', p)] = Some new
           \<and> rows = acc @ new"
  using assms by (auto simp: formStep_def get_def rowOf_def split: bind_splits if_splits)

lemma taskStep_contexts:
  assumes "taskStep stage task acc = Some rows"
  shows "\<exists>new. map_js rowOf (taskContexts stage task) = Some new \<and> rows = acc @ new"
proof -
  from assms obtain pr where pr: "get task ''parameterRequests'' = Some pr"
    and run: "(if nullish pr then Some acc
               else do { ps \<leftarrow> arrayOf pr; forEach (paramStep stage task) ps acc }) = Some rows"
    by (auto simp: taskStep_def split: bind_splits)
  from pr have g: "getOpt task ''parameterRequests'' = pr"
    by (simp add: get_def split: if_splits)
  show ?thesis
  proof (cases "nullish pr")
    case True
    then show ?thesis using run g by (simp add: taskContexts_def elems_nullish)
  next
    case False
    with run obtain ps where ps: "pr = JArr ps" and fe: "forEach (paramStep stage task) ps acc = Some rows"
      by (auto split: bind_splits dest: arrayOf_Some)
    have "\<exists>new. map_js rowOf (concat (map (\<lambda>p. [(getOpt stage ''name'', getOpt task ''name'', p)]) ps))
             = Some new \<and> rows = acc @ new"
      by (rule forEach_contexts[OF _ fe]) (rule paramStep_contexts)
    then show ?thesis
      using g ps by (simp add: taskContexts_def elems_def map_as_concat[symmetric])
  qed
qed

lemma stageStep_contexts:
  assumes "stageStep stage acc = Some rows"
  shows "\<exists>new. map_js rowOf (stageContexts stage) = Some new \<and> rows = acc @ new"
proof -
  from assms obtain tr where tr: "get stage ''taskRequests'' = Some tr"
    and run: "(if nullish tr then Some acc
               else do { ts \<leftarrow> arrayOf tr; forEach (taskStep stage) ts acc }) = Some rows"
    by (auto simp: stageStep_def split: bind_splits)
  from tr have g: "getOpt stage ''taskRequests'' = tr"
    by (simp add: get_def split: if_splits)
  show ?thesis
  proof (cases "nullish tr")
    case True
    then show ?thesis using run g by (simp add: stageContexts_def elems_nullish)
  next
    case False
    with run obtain ts where ts: "tr = JArr ts" and fe: "forEach (taskStep stage) ts acc = Some rows"
      by (auto split: bind_splits dest: arrayOf_Some)
    have "\<exists>new. map_js rowOf (concat (map (taskContexts stage) ts)) = Some new \<and> rows = acc @ new"
      by (rule forEach_contexts[OF _ fe]) (rule taskStep_contexts)
    then show ?thesis
      using g ts by (simp add: stageContexts_def elems_def)
  qed
qed

lemma lengthTruthy_elems: "\<not> lengthTruthy v \<Longrightarrow> elems v = []"
  by (cases v) (simp_all add: elems_def)

lemma processWorkflow_contexts:
  assumes "processWorkflow wfl acc = Some rows"
  shows "\<exists>new. map_js rowOf (contexts wfl) = Some new \<and> rows = acc @ new"
proof -
  from assms obtain pr rows1 sr where pr: "get wfl ''parameterRequests'' = Some pr"
    and first: "(if lengthTruthy pr then do { ps \<leftarrow> arrayOf pr; forEach formStep ps acc }
                 else Some acc) = Some rows1"
    and sr: "get wfl ''stageRequests'' = Some sr"
    and rest: "(if nullish sr then Some rows1
                else do { ss \<leftarrow> arrayOf sr; forEach stageStep ss rows1 }) = Some rows"
    unfolding processWorkflow_def bind_eq_Some_conv by blast
  from pr have gp: "getOpt wfl ''parameterRequests'' = pr"
    by (simp add: get_def split: if_splits)
  from sr have gs: "getOpt wfl ''stageRequests'' = sr"
    by (simp add: get_def split: if_splits)
  have one: "\<exists>n1. map_js rowOf (formContexts wfl) = Some n1 \<and> rows1 = acc @ n1"
  proof (cases "lengthTruthy pr")
    case False
    then show ?thesis using first gp by (simp add: formContexts_def lengthTruthy_elems)
  next
    case True
    with first obtain ps where ps: "pr = JArr ps" and fe: "forEach formStep ps acc = Some rows1"
      by (auto split: bind_splits dest: arrayOf_Some)
    have "\<exists>new. map_js rowOf (concat (map (\<lambda>p. [(JStr ''Create Job Form'', getOpt p ''label'', p)]) ps))
             = Some new \<and> rows1 = acc @ new"
      by (rule forEach_contexts[OF _ fe]) (rule formStep_contexts)
    then show ?thesis
      using gp ps by (simp add: formContexts_def elems_def map_as_concat[symmetric])
  qed
  have two: "\<exists>n2. map_js rowOf (concat (map stageContexts (elems sr))) = Some n2 \<and> rows = rows1 @ n2"
  proof (cases "nullish sr")
    case True
    then show ?thesis using rest by (simp add: elems_nullish)
  next
    case False
    with rest obtain ss where ss: "sr = JArr ss" and fe: "forEach stageStep ss rows1 = Some rows"
      by (auto split: bind_splits dest: arrayOf_Some)
    have "\<exists>new. map_js rowOf (concat (map stageContexts ss)) = Some new \<and> rows = rows1 @ new"
      by (rule forEach_contexts[OF _ fe]) (rule stageStep_contexts)
    then show ?thesis using ss by (simp add: elems_def)
  qed
  from one two show ?thesis
    by (auto simp: contexts_def gs map_js_append)
qed

lemma length_contexts: "length (contexts wfl) = paramCount wfl"
  by (simp add: contexts_def paramCount_def formContexts_def stageContexts_def taskContexts_def
      length_concat comp_def)


subsection \<open>No throw on the shapes of the data model\<close>

lemma isObject_not_nullish: "isObject v \<Longrightarrow> \<not> nullish v"
  by (cases v) (simp_all add: nullish_def)

lemma isArray_elems: "isArray v \<Longrightarrow> v = JArr (elems v)"
  by (cases v) (simp_all add: elems_def)

lemma primitive_ToString: "primitive v \<Longrightarrow> \<exists>s. ToString v = Some s"
  by (cases v) simp_all

lemma elementTexts_primitive: "list_all primitive xs \<Longrightarrow> \<exists>ss. elementTexts xs = Some ss"
proof (induction xs)
  case Nil
  then show ?case by simp
next
  case (Cons x xs)
  then obtain ss where "elementTexts xs = Some ss" by auto
  moreover from Cons.prems obtain s where "ToString x = Some s"
    using primitive_ToString by auto
  ultimately show ?case by simp
qed

lemma map_js_total:
  "(\<And>x. x \<in> set xs \<Longrightarrow> \<exists>y. f x = Some y) \<Longrightarrow> \<exists>ys. map_js f xs = Some ys"
proof (induction xs)
  case Nil
  then show ?case by simp
next
  case (Cons x xs)
  from Cons.prems[of x] obtain y where "f x = Some y" by auto
  moreover have "\<exists>ys. map_js f xs = Some ys"
    by (rule Cons.IH) (use Cons.prems in auto)
  ultimately show ?case by auto
qed

lemma map_js_names:
  "list_all (\<lambda>d. \<not> nullish d) ds \<Longrightarrow>
   map_js (\<lambda>d. get d ''name'') ds = Some (map (\<lambda>d. getOpt d ''name'') ds)"
  by (induction ds) (simp_all add: get_def)

lemma map_js_names_Some:
  "map_js (\<lambda>d. get d ''name'') ds = Some ns \<Longrightarrow> ns = map (\<lambda>d. getOpt d ''name'') ds"
  by (induction ds arbitrary: ns) (auto simp: get_def split: bind_splits if_splits)

lemma optionEntries_names_total:
  assumes "list_all isOptionEntry ds"
  shows "\<exists>s. do { names \<leftarrow> map_js (\<lambda>d. get d ''name'') ds; join names sep } = Some s"
proof -
  from assms have "list_all (\<lambda>d. \<not> nullish d) ds"
    by (induction ds) (auto simp: isOptionEntry_def isObject_not_nullish)
  then have m: "map_js (\<lambda>d. get d ''name'') ds = Some (map (\<lambda>d. getOpt d ''name'') ds)"
    by (rule map_js_names)
  from assms have "list_all primitive (map (\<lambda>d. getOpt d ''name'') ds)"
    by (induction ds) (auto simp: isOptionEntry_def)
  then obtain ss where "elementTexts (map (\<lambda>d. getOpt d ''name'') ds) = Some ss"
    using elementTexts_primitive by blast
  with m show ?thesis by (simp add: join_def)
qed

lemma options_total:
  assumes "\<not> nullish param" and "isData (getOpt param ''data'')"
  shows "\<exists>opts. options param = Some opts"
proof -
  let ?d = "getOpt param ''data''"
  consider (a) "isArray ?d" | (b) "\<not> isArray ?d" "isArray (getOpt ?d ''choices'')"
    | (c) "\<not> isArray ?d" "\<not> isArray (getOpt ?d ''choices'')" by blast
  then show ?thesis
  proof cases
    case a
    then obtain ds where ds: "?d = JArr ds" by (cases ?d) simp_all
    then have "list_all isOptionEntry ds" using assms(2) by (simp add: isData_def elems_def)
    from optionEntries_names_total[OF this, of "'' '' @ bullet @ '' ''"]
    obtain s where "do { names \<leftarrow> map_js (\<lambda>d. get d ''name'') ds;
                         join names ('' '' @ bullet @ '' '') } = Some s" by blast
    then show ?thesis using ds assms(1) by (simp add: options_def get_def)
  next
    case b
    then obtain ds where ds: "getOpt ?d ''choices'' = JArr ds"
      by (cases "getOpt ?d ''choices''") simp_all
    then have "list_all isOptionEntry ds" using assms(2) b by (simp add: isData_def elems_def)
    from optionEntries_names_total[OF this, of "'' '' @ bullet @ '' ''"]
    obtain s where "do { names \<leftarrow> map_js (\<lambda>d. get d ''name'') ds;
                         join names ('' '' @ bullet @ '' '') } = Some s" by blast
    then show ?thesis using ds b assms(1) by (simp add: options_def get_def)
  next
    case c
    then show ?thesis using assms(1) by (simp add: options_def get_def)
  qed
qed

lemma desc_total:
  assumes "\<not> nullish param" and "primitive (getOpt param ''type'')"
  shows "\<exists>d. desc param label opts = Some d"
  using assms primitive_ToString[OF assms(2)] by (auto simp: desc_def get_def)

lemma joinOpt_total:
  assumes "optionalArray primitive v"
  shows "\<exists>s. joinOpt v = Some s"
proof (cases "nullish v")
  case True
  then show ?thesis by (simp add: joinOpt_def)
next
  case False
  with assms have a: "isArray v" and p: "list_all primitive (elems v)"
    by (auto simp: optionalArray_def)
  from elementTexts_primitive[OF p] obtain ss where "elementTexts (elems v) = Some ss" by auto
  then show ?thesis using False isArray_elems[OF a]
    by (cases v) (auto simp: joinOpt_def join_def)
qed

lemma ruleText_total:
  assumes "isRule r"
  shows "\<exists>s. ruleText label r = Some s"
proof -
  from assms have n: "\<not> nullish r" by (simp add: isRule_def isObject_not_nullish)
  from assms obtain a where a: "joinOpt (getOpt r ''input'') = Some a"
    using joinOpt_total by (auto simp: isRule_def)
  from assms obtain b where b: "joinOpt (getOpt (getOpt r ''show'') ''parameters'') = Some b"
    using joinOpt_total by (auto simp: isRule_def)
  show ?thesis using n a b by (simp add: ruleText_def get_def)
qed

lemma rules_total:
  assumes "\<not> nullish param" and "optionalArray isRule (getOpt param ''rules'')"
  shows "\<exists>s. rules param label = Some s"
proof -
  let ?rs = "getOpt param ''rules''"
  have "\<exists>xs. (if truthy ?rs then arrayOf ?rs else Some []) = Some xs \<and> list_all isRule xs"
  proof (cases "nullish ?rs")
    case True
    then show ?thesis by (auto simp: nullish_def)
  next
    case False
    with assms(2) have "isArray ?rs" "list_all isRule (elems ?rs)"
      by (auto simp: optionalArray_def)
    then show ?thesis by (cases ?rs) (simp_all add: elems_def)
  qed
  then obtain xs where xs: "(if truthy ?rs then arrayOf ?rs else Some []) = Some xs"
    and ok: "list_all isRule xs" by blast
  have "\<exists>texts. map_js (ruleText label) xs = Some texts"
    by (rule map_js_total) (use ok ruleText_total in \<open>auto simp: list_all_iff\<close>)
  then show ?thesis using assms(1) xs by (auto simp: rules_def get_def)
qed

lemma makeRow_total:
  assumes "isParameter param"
  shows "\<exists>r. makeRow stage task param = Some r"
proof -
  from assms have n: "\<not> nullish param" by (simp add: isParameter_def isObject_not_nullish)
  from assms obtain label where l: "ToString (getOpt param ''label'') = Some label"
    using primitive_ToString by (auto simp: isParameter_def)
  from assms n obtain opts where o: "options param = Some opts"
    using options_total by (auto simp: isParameter_def)
  from assms have "primitive (getOpt param ''type'')" by (simp add: isParameter_def)
  from desc_total[OF n this, of label opts] obtain d where d: "desc param label opts = Some d"
    by blast
  from assms n obtain rl where r: "rules param label = Some rl"
    using rules_total by (auto simp: isParameter_def)
  show ?thesis using n l o d r by (simp add: makeRow_def get_def)
qed

lemma paramStep_total:
  assumes "\<not> nullish stage" and "\<not> nullish task" and "isParameter param"
  shows "\<exists>rows. paramStep stage task param acc = Some rows"
proof -
  from makeRow_total[OF assms(3), of "getOpt stage ''name''" "getOpt task ''name''"]
  obtain r where "makeRow (getOpt stage ''name'') (getOpt task ''name'') param = Some r" by blast
  then show ?thesis using assms by (simp add: paramStep_def get_def)
qed

lemma formStep_total:
  assumes "isParameter p"
  shows "\<exists>rows. formStep p acc = Some rows"
proof -
  from assms have n: "\<not> nullish p" by (simp add: isParameter_def isObject_not_nullish)
  from makeRow_total[OF assms, of "JStr ''Create Job Form''" "getOpt p ''label''"]
  obtain r where "makeRow (JStr ''Create Job Form'') (getOpt p ''label'') p = Some r" by blast
  then show ?thesis using n by (simp add: formStep_def get_def)
qed

lemma taskStep_total:
  assumes "\<not> nullish stage" and "isTask task"
  shows "\<exists>rows. taskStep stage task acc = Some rows"
proof -
  let ?pr = "getOpt task ''parameterRequests''"
  from assms(2) have n: "\<not> nullish task" by (simp add: isTask_def isObject_not_nullish)
  show ?thesis
  proof (cases "nullish ?pr")
    case True
    then show ?thesis using n by (simp add: taskStep_def get_def)
  next
    case False
    with assms(2) have a: "isArray ?pr" and ok: "list_all isParameter (elems ?pr)"
      by (auto simp: isTask_def optionalArray_def)
    have "\<exists>rows. forEach (paramStep stage task) (elems ?pr) acc = Some rows"
      by (rule forEach_total) (use ok assms(1) n paramStep_total in \<open>auto simp: list_all_iff\<close>)
    then show ?thesis using False n isArray_elems[OF a]
      by (cases ?pr) (auto simp: taskStep_def get_def)
  qed
qed

lemma stageStep_total:
  assumes "isStage stage"
  shows "\<exists>rows. stageStep stage acc = Some rows"
proof -
  let ?tr = "getOpt stage ''taskRequests''"
  from assms have n: "\<not> nullish stage" by (simp add: isStage_def isObject_not_nullish)
  show ?thesis
  proof (cases "nullish ?tr")
    case True
    then show ?thesis using n by (simp add: stageStep_def get_def)
  next
    case False
    with assms have a: "isArray ?tr" and ok: "list_all isTask (elems ?tr)"
      by (auto simp: isStage_def optionalArray_def)
    have "\<exists>rows. forEach (taskStep stage) (elems ?tr) acc = Some rows"
      by (rule forEach_total) (use ok n taskStep_total in \<open>auto simp: list_all_iff\<close>)
    then show ?thesis using False n isArray_elems[OF a]
      by (cases ?tr) (auto simp: stageStep_def get_def)
  qed
qed

lemma processWorkflow_total:
  assumes "isWorkflow wfl"
  shows "\<exists>rows. processWorkflow wfl acc = Some rows"
proof -
  let ?pr = "getOpt wfl ''parameterRequests''"
  let ?sr = "getOpt wfl ''stageRequests''"
  from assms have n: "\<not> nullish wfl" by (simp add: isWorkflow_def isObject_not_nullish)
  have "\<exists>rows1. (if lengthTruthy ?pr then do { ps \<leftarrow> arrayOf ?pr; forEach formStep ps acc }
                  else Some acc) = Some rows1"
  proof (cases "lengthTruthy ?pr")
    case False
    then show ?thesis by simp
  next
    case True
    then have "\<not> nullish ?pr" by (auto simp: nullish_def)
    with assms have a: "isArray ?pr" and ok: "list_all isParameter (elems ?pr)"
      by (auto simp: isWorkflow_def optionalArray_def)
    have "\<exists>rows. forEach formStep (elems ?pr) acc = Some rows"
      by (rule forEach_total) (use ok formStep_total in \<open>auto simp: list_all_iff\<close>)
    then show ?thesis using True isArray_elems[OF a] by (cases ?pr) auto
  qed
  then obtain rows1 where one: "(if lengthTruthy ?pr then do { ps \<leftarrow> arrayOf ?pr; forEach formStep ps acc }
                  else Some acc) = Some rows1" by blast
  have "\<exists>rows. (if nullish ?sr then Some rows1
                 else do { ss \<leftarrow> arrayOf ?sr; forEach stageStep ss rows1 }) = Some rows"
  proof (cases "nullish ?sr")
    case True
    then show ?thesis by simp
  next
    case False
    with assms have a: "isArray ?sr" and ok: "list_all isStage (elems ?sr)"
      by (auto simp: isWorkflow_def optionalArray_def)
    have "\<exists>rows. forEach stageStep (elems ?sr) rows1 = Some rows"
      by (rule forEach_total) (use ok stageStep_total in \<open>auto simp: list_all_iff\<close>)
    then show ?thesis using False isArray_elems[OF a] by (cases ?sr) auto
  qed
  then show ?thesis using n one by (simp add: processWorkflow_def get_def)
qed

section \<open>Rows and their labels\<close>

lemma makeRow_labels:
  "makeRow stage task param = Some r \<Longrightarrow> Stage_Name r = stage \<and> Activity_Name r = task"
  by (auto simp: makeRow_def split: bind_splits)

lemma rowOf_labels:
  "map_js rowOf cs = Some new \<Longrightarrow>
   map (\<lambda>r. (Stage_Name r, Activity_Name r)) new = map (\<lambda>(s, t, p). (s, t)) cs"
proof (induction cs arbitrary: new)
  case Nil
  then show ?case by simp
next
  case (Cons c cs)
  obtain s t p where c: "c = (s, t, p)" by (cases c)
  have rc: "rowOf c = makeRow s t p" by (simp add: c rowOf_def)
  from Cons.prems obtain r rest where r: "makeRow s t p = Some r"
    and rest: "map_js rowOf cs = Some rest" and new: "new = r # rest"
    by (auto simp: rc split: bind_splits)
  show ?case using Cons.IH[OF rest] makeRow_labels[OF r] by (simp add: new c)
qed

lemma isWorkflow_example: "isWorkflow exampleWorkflow"
  by (simp add: exampleWorkflow_def priorityParam_def isWorkflow_def isStage_def isTask_def
      isParameter_def isData_def isOptionEntry_def optionalArray_def nullish_def elems_def)

lemma contexts_example:
  "map (\<lambda>(s, t, p). (s, t)) (contexts exampleWorkflow) =
     [(JStr ''Create Job Form'', JStr ''Full Name''), (JStr ''Review'', JStr ''Approve'')]"
  by (simp add: exampleWorkflow_def contexts_def formContexts_def stageContexts_def
      taskContexts_def elems_def)

lemma paramCount_example: "paramCount exampleWorkflow = 2"
  by (simp add: exampleWorkflow_def paramCount_def elems_def)

lemma processAll_append:
  "processAll (as @ bs) = do { ra \<leftarrow> processAll as; rb \<leftarrow> processAll bs; Some (ra @ rb) }"
proof (cases "processAll as")
  case None
  then show ?thesis by (simp add: processAll_def forEach_append)
next
  case (Some ra)
  have "forEach processWorkflow bs ra = map_option ((@) ra) (forEach processWorkflow bs [])"
    by (rule forEach_appending) (rule processWorkflow_appending)
  then show ?thesis using Some
    by (cases "forEach processWorkflow bs []") (simp_all add: processAll_def forEach_append)
qed

section \<open>The properties of the specification\<close>

text \<open>
  C1. The number of rows a workflow produces is the number of its job-form parameters
  plus, over all stages and all their tasks, the number of parameters of each task. A
  property that is absent, or an empty array, adds nothing. A workflow of the data
  model always produces its rows.
\<close>

theorem row_count:
  "(isWorkflow wfl \<longrightarrow>
      (\<exists>rows. processWorkflow wfl [] = Some rows \<and> length rows = paramCount wfl))
   \<and> (\<forall>csvRows rows. processWorkflow wfl csvRows = Some rows \<longrightarrow>
         length rows = length csvRows + paramCount wfl)"
proof -
  have count: "length rows = length csvRows + paramCount wfl"
    if "processWorkflow wfl csvRows = Some rows" for csvRows rows
  proof -
    from processWorkflow_contexts[OF that] obtain new
      where "map_js rowOf (contexts wfl) = Some new" and "rows = csvRows @ new" by blast
    then show ?thesis using map_js_length[of rowOf "contexts wfl" new]
      by (simp add: length_contexts)
  qed
  have "\<exists>rows. processWorkflow wfl [] = Some rows \<and> length rows = paramCount wfl"
    if "isWorkflow wfl"
  proof -
    from processWorkflow_total[OF that, of "[]"] obtain rows
      where "processWorkflow wfl [] = Some rows" by blast
    then show ?thesis using count[of "[]" rows] by simp
  qed
  with count show ?thesis by blast
qed

theorem row_count_witness:
  "isWorkflow exampleWorkflow
   \<and> (\<exists>rows. processWorkflow exampleWorkflow [] = Some rows \<and> length rows = 2)"
  using row_count[of exampleWorkflow] isWorkflow_example paramCount_example by simp

text \<open>
  C2. The rows of a workflow are the rows of its contexts, in their order: first the
  job-form parameters, each under the stage name \<^verbatim>\<open>Create Job Form\<close> and its own
  label as activity name, then for each stage, each task and each parameter in order a
  row under the name of the stage and the name of the task.
\<close>

theorem row_order:
  "(isWorkflow wfl \<longrightarrow> (\<exists>rows. processWorkflow wfl [] = Some rows))
   \<and> (\<forall>csvRows rows. processWorkflow wfl csvRows = Some rows \<longrightarrow>
        (\<exists>new. rows = csvRows @ new
           \<and> map_js rowOf (contexts wfl) = Some new
           \<and> map (\<lambda>r. (Stage_Name r, Activity_Name r)) new
               = map (\<lambda>(stage, task, param). (stage, task)) (contexts wfl)))"
proof -
  have "\<exists>new. rows = csvRows @ new \<and> map_js rowOf (contexts wfl) = Some new
           \<and> map (\<lambda>r. (Stage_Name r, Activity_Name r)) new
               = map (\<lambda>(stage, task, param). (stage, task)) (contexts wfl)"
    if "processWorkflow wfl csvRows = Some rows" for csvRows rows
  proof -
    from processWorkflow_contexts[OF that] obtain new
      where n: "map_js rowOf (contexts wfl) = Some new" and r: "rows = csvRows @ new" by blast
    from rowOf_labels[OF n] n r show ?thesis by blast
  qed
  then show ?thesis using processWorkflow_total[of wfl "[]"] by blast
qed

theorem row_order_witness:
  "isWorkflow exampleWorkflow
   \<and> (\<exists>rows. processWorkflow exampleWorkflow [] = Some rows
         \<and> map (\<lambda>r. (Stage_Name r, Activity_Name r)) rows
             = [(JStr ''Create Job Form'', JStr ''Full Name''), (JStr ''Review'', JStr ''Approve'')])"
proof -
  from row_order[of exampleWorkflow] isWorkflow_example obtain rows
    where run: "processWorkflow exampleWorkflow [] = Some rows" by blast
  with row_order[of exampleWorkflow] obtain new where "rows = [] @ new"
    and "map (\<lambda>r. (Stage_Name r, Activity_Name r)) new
               = map (\<lambda>(stage, task, param). (stage, task)) (contexts exampleWorkflow)"
    by blast
  then show ?thesis using run isWorkflow_example contexts_example by simp
qed

section \<open>What a returned row holds\<close>

lemma makeRow_SomeD:
  assumes "makeRow stage task param = Some r"
  shows "\<exists>label opts. \<not> nullish param
     \<and> ToString (getOpt param ''label'') = Some label
     \<and> options param = Some opts
     \<and> desc param label opts = Some (Activity_Description_in_detail r)
     \<and> rules param label = Some (Validations_Conditions r)"
  using assms unfolding makeRow_def get_def
  by (auto split: if_splits simp: bind_eq_Some_conv)

lemma desc_SomeD:
  assumes "desc param label opts = Some d"
  shows "\<exists>key. ToString (getOpt param ''type'') = Some key
     \<and> d = memberText (fieldLogic label) key @
          (if opts \<noteq> [] then '' Available Options: '' @ bullet @ '' '' @ opts else [])"
  using assms unfolding desc_def get_def
  by (auto split: if_splits simp: bind_eq_Some_conv)

lemma elementTexts_strings: "elementTexts (map JStr ss) = Some ss"
  by (induction ss) (simp_all add: nullish_def)

lemma options_SomeD:
  assumes "options param = Some opts"
  shows "\<exists>texts. elementTexts (optionNames param) = Some texts
     \<and> opts = joinWith ('' '' @ bullet @ '' '') texts"
proof -
  let ?d = "getOpt param ''data''"
  from assms have n: "\<not> nullish param" by (auto simp: options_def get_def split: if_splits)
  consider (a) "isArray ?d" | (b) "\<not> isArray ?d" "isArray (getOpt ?d ''choices'')"
    | (c) "\<not> isArray ?d" "\<not> isArray (getOpt ?d ''choices'')" by blast
  then show ?thesis
  proof cases
    case a
    then obtain ds where ds: "?d = JArr ds" by (cases ?d) simp_all
    with assms n obtain names where m: "map_js (\<lambda>d. get d ''name'') ds = Some names"
      and j: "join names ('' '' @ bullet @ '' '') = Some opts"
      by (auto simp: options_def get_def bind_eq_Some_conv)
    from map_js_names_Some[OF m] have "names = optionNames param"
      by (simp add: optionNames_def optionEntries_def ds elems_def)
    with j show ?thesis by (auto simp: join_def)
  next
    case b
    then obtain ds where ds: "getOpt ?d ''choices'' = JArr ds"
      by (cases "getOpt ?d ''choices''") simp_all
    with assms n b obtain names where m: "map_js (\<lambda>d. get d ''name'') ds = Some names"
      and j: "join names ('' '' @ bullet @ '' '') = Some opts"
      by (auto simp: options_def get_def bind_eq_Some_conv)
    from map_js_names_Some[OF m] have "names = optionNames param"
      using b by (simp add: optionNames_def optionEntries_def ds elems_def)
    with j show ?thesis by (auto simp: join_def)
  next
    case c
    then show ?thesis using assms n
      by (simp add: options_def get_def optionNames_def optionEntries_def)
  qed
qed


lemma makeRow_eval:
  "makeRow stage task (JObj kvs) = do {
     label \<leftarrow> ToString (getOpt (JObj kvs) ''label'');
     opts \<leftarrow> options (JObj kvs);
     d \<leftarrow> desc (JObj kvs) label opts;
     rl \<leftarrow> rules (JObj kvs) label;
     Some \<lparr>
       Stage_Name = stage,
       Activity_Name = task,
       Performer = ''Performer/Verifier'',
       Activity_Description_in_detail = d,
       Validations_Conditions = rl,
       Instruction_Title = getOpt (JObj kvs) ''label'',
       Field_Type = (if truthy (getOpt (JObj kvs) ''mandatory'') then ''Mandatory'' else ''Optional''),
       Activity_Parameter_Type = getOpt (JObj kvs) ''type'',
       Configuration_Feasibility = ''Configurable'',
       Configuration_Feasibility_Notes = ''N/A'',
       Configuration_Status = ''Configured'',
       Verification_Status =
         (if getOpt (JObj kvs) ''verificationType'' = JStr ''SELF''
             \<or> getOpt (JObj kvs) ''verificationType'' = JStr ''BOTH''
          then ''Enabled'' else ''Disabled''),
       Tester_Comments = ''N/A'',
       Verification_B_Status =
         (if getOpt (JObj kvs) ''verificationType'' = JStr ''BOTH'' then ''Enabled'' else ''Disabled''),
       Tester_Comments_B = ''N/A''
     \<rparr>
   }"
  by (simp add: makeRow_def get_def nullish_def)

lemmas eval_defs = get_def nullish_def options_def desc_def rules_def join_def joinOpt_def
  ruleText_def fieldLogic_def memberText_def objectPrototype_def nativeFunction_def

lemma isParameter_priority: "isParameter priorityParam"
  by (simp add: priorityParam_def isParameter_def isData_def isOptionEntry_def
      optionalArray_def nullish_def elems_def)

lemma priority_description:
  "map_option Activity_Description_in_detail (makeRow stage task priorityParam)
     = Some (''Performer selects if Priority. Available Options: '' @ bullet @ '' Low ''
             @ bullet @ '' High'')"
  by (simp add: priorityParam_def makeRow_eval eval_defs)

text \<open>
  C3 (as the code has it). For a parameter whose type is one of the nine recognized
  values, the description is the template of that type with the text of
  \<^verbatim>\<open>param.label\<close> in the place of \<^verbatim>\<open>{label}\<close>, followed by the options suffix when
  the joined options text is not empty; option entries whose joined names are the
  empty text add no suffix. The
  parameter \<^verbatim>\<open>{type: "SINGLE_SELECT", label: "Priority", data: [{name: "Low"},
  {name: "High"}]}\<close> has the description \<^verbatim>\<open>Performer selects if Priority. Available
  Options: \<close>, bullet, \<^verbatim>\<open> Low \<close>, bullet, \<^verbatim>\<open> High\<close>.
\<close>

theorem description_template:
  "(isParameter param \<longrightarrow> (\<exists>r. makeRow stage task param = Some r))
   \<and> (\<forall>r ty. makeRow stage task param = Some r \<and> getOpt param ''type'' = JStr ty
         \<and> ty \<in> set recognizedTypes \<longrightarrow>
        (\<exists>label opts sfx.
           ToString (getOpt param ''label'') = Some label
         \<and> options param = Some opts
         \<and> sfx = (if opts = [] then [] else '' Available Options: '' @ bullet @ '' '' @ opts)
         \<and> (ty = ''SINGLE_SELECT'' \<longrightarrow> Activity_Description_in_detail r =
               ''Performer selects if '' @ label @ ''.'' @ sfx)
         \<and> (ty = ''MULTISELECT'' \<longrightarrow> Activity_Description_in_detail r =
               ''Performer selects one or more options for '' @ label @ ''.'' @ sfx)
         \<and> (ty = ''CHECKLIST'' \<longrightarrow> Activity_Description_in_detail r =
               ''Performer checks applicable items for '' @ label @ ''.'' @ sfx)
         \<and> (ty = ''SINGLE_LINE'' \<longrightarrow> Activity_Description_in_detail r =
               ''Performer enters '' @ label @ ''.'' @ sfx)
         \<and> (ty = ''MULTI_LINE'' \<longrightarrow> Activity_Description_in_detail r =
               ''Performer enters a detailed response for '' @ label @ ''.'' @ sfx)
         \<and> (ty = ''FILE_UPLOAD'' \<longrightarrow> Activity_Description_in_detail r =
               ''Performer uploads the required file(s) for '' @ label @ ''.'' @ sfx)
         \<and> (ty = ''RESOURCE'' \<longrightarrow> Activity_Description_in_detail r =
               ''Performer selects a resource for '' @ label @ ''.'' @ sfx)
         \<and> (ty = ''DATE'' \<longrightarrow> Activity_Description_in_detail r =
               ''Performer enters the date for '' @ label @ ''.'' @ sfx)
         \<and> (ty = ''INSTRUCTION'' \<longrightarrow> Activity_Description_in_detail r =
               ''Performer provides input for '' @ label @ ''.'' @ sfx)))
   \<and> map_option Activity_Description_in_detail (makeRow stage task priorityParam)
       = Some (''Performer selects if Priority. Available Options: '' @ bullet @ '' Low ''
               @ bullet @ '' High'')"
proof (intro conjI allI impI)
  assume "isParameter param"
  then show "\<exists>r. makeRow stage task param = Some r" by (rule makeRow_total)
next
  fix r ty
  assume a: "makeRow stage task param = Some r \<and> getOpt param ''type'' = JStr ty
         \<and> ty \<in> set recognizedTypes"
  from makeRow_SomeD[of stage task param r] a obtain label opts
    where l: "ToString (getOpt param ''label'') = Some label"
      and o: "options param = Some opts"
      and d: "desc param label opts = Some (Activity_Description_in_detail r)" by blast
  from desc_SomeD[OF d] a
  have e: "Activity_Description_in_detail r = memberText (fieldLogic label) ty @
          (if opts \<noteq> [] then '' Available Options: '' @ bullet @ '' '' @ opts else [])"
    by auto
  show "\<exists>label opts sfx.
           ToString (getOpt param ''label'') = Some label
         \<and> options param = Some opts
         \<and> sfx = (if opts = [] then [] else '' Available Options: '' @ bullet @ '' '' @ opts)
         \<and> (ty = ''SINGLE_SELECT'' \<longrightarrow> Activity_Description_in_detail r =
               ''Performer selects if '' @ label @ ''.'' @ sfx)
         \<and> (ty = ''MULTISELECT'' \<longrightarrow> Activity_Description_in_detail r =
               ''Performer selects one or more options for '' @ label @ ''.'' @ sfx)
         \<and> (ty = ''CHECKLIST'' \<longrightarrow> Activity_Description_in_detail r =
               ''Performer checks applicable items for '' @ label @ ''.'' @ sfx)
         \<and> (ty = ''SINGLE_LINE'' \<longrightarrow> Activity_Description_in_detail r =
               ''Performer enters '' @ label @ ''.'' @ sfx)
         \<and> (ty = ''MULTI_LINE'' \<longrightarrow> Activity_Description_in_detail r =
               ''Performer enters a detailed response for '' @ label @ ''.'' @ sfx)
         \<and> (ty = ''FILE_UPLOAD'' \<longrightarrow> Activity_Description_in_detail r =
               ''Performer uploads the required file(s) for '' @ label @ ''.'' @ sfx)
         \<and> (ty = ''RESOURCE'' \<longrightarrow> Activity_Description_in_detail r =
               ''Performer selects a resource for '' @ label @ ''.'' @ sfx)
         \<and> (ty = ''DATE'' \<longrightarrow> Activity_Description_in_detail r =
               ''Performer enters the date for '' @ label @ ''.'' @ sfx)
         \<and> (ty = ''INSTRUCTION'' \<longrightarrow> Activity_Description_in_detail r =
               ''Performer provides input for '' @ label @ ''.'' @ sfx)"
    apply (rule exI[of _ label])
    apply (rule exI[of _ opts])
    apply (rule exI[of _ "if opts = [] then [] else '' Available Options: '' @ bullet @ '' '' @ opts"])
    using l o e by (simp add: memberText_def fieldLogic_def)
next
  show "map_option Activity_Description_in_detail (makeRow stage task priorityParam)
       = Some (''Performer selects if Priority. Available Options: '' @ bullet @ '' Low ''
               @ bullet @ '' High'')"
    by (rule priority_description)
qed

theorem description_template_witness:
  "isParameter priorityParam
   \<and> getOpt priorityParam ''type'' = JStr ''SINGLE_SELECT''
   \<and> ''SINGLE_SELECT'' \<in> set recognizedTypes
   \<and> (\<exists>r. makeRow (JStr ''Review'') (JStr ''Approve'') priorityParam = Some r
        \<and> Activity_Description_in_detail r
            = ''Performer selects if Priority. Available Options: '' @ bullet @ '' Low ''
              @ bullet @ '' High'')"
proof -
  note t = description_template[of priorityParam "JStr ''Review''" "JStr ''Approve''"]
  have ty: "getOpt priorityParam ''type'' = JStr ''SINGLE_SELECT''"
    by (simp add: priorityParam_def)
  have rec: "''SINGLE_SELECT'' \<in> set recognizedTypes" by (simp add: recognizedTypes_def)
  from t[THEN conjunct1] isParameter_priority obtain r
    where r: "makeRow (JStr ''Review'') (JStr ''Approve'') priorityParam = Some r" by blast
  have "\<exists>label opts.
           ToString (getOpt priorityParam ''label'') = Some label
         \<and> options priorityParam = Some opts
         \<and> Activity_Description_in_detail r = ''Performer selects if '' @ label @ ''.'' @
            (if opts = [] then [] else '' Available Options: '' @ bullet @ '' '' @ opts)"
    using t[THEN conjunct2, THEN conjunct1, rule_format, of r "''SINGLE_SELECT''"] r ty rec
    by simp
  then have "Activity_Description_in_detail r
            = ''Performer selects if Priority. Available Options: '' @ bullet @ '' Low ''
              @ bullet @ '' High''"
    by (auto simp: priorityParam_def eval_defs)
  with r ty rec isParameter_priority show ?thesis by blast
qed

text \<open>
  C4 (as the code has it). The option names of a parameter are the \<^verbatim>\<open>name\<close> fields, in
  order, of \<^verbatim>\<open>data\<close> when that is an array, else of \<^verbatim>\<open>data.choices\<close> when that is
  an array, else there are none; any other shape of \<^verbatim>\<open>data\<close> gives the empty options
  text and no error. The options text is the texts of the names joined with the bullet,
  and the description carries the suffix exactly when this joined text is not empty.
  Names that are strings are their own texts.
\<close>

theorem options_suffix:
  "(\<forall>r. makeRow stage task param = Some r \<longrightarrow>
      (\<exists>label key texts.
          ToString (getOpt param ''label'') = Some label
        \<and> ToString (getOpt param ''type'') = Some key
        \<and> elementTexts (optionNames param) = Some texts
        \<and> options param = Some (joinWith ('' '' @ bullet @ '' '') texts)
        \<and> Activity_Description_in_detail r =
             memberText (fieldLogic label) key @
             (if joinWith ('' '' @ bullet @ '' '') texts = [] then []
              else '' Available Options: '' @ bullet @ '' ''
                   @ joinWith ('' '' @ bullet @ '' '') texts)))
   \<and> (\<not> nullish param \<and> \<not> isArray (getOpt param ''data'')
        \<and> \<not> isArray (getOpt (getOpt param ''data'') ''choices'')
        \<longrightarrow> optionNames param = [] \<and> options param = Some [])
   \<and> elementTexts (map JStr names) = Some names"
proof (intro conjI allI impI)
  fix r
  assume a: "makeRow stage task param = Some r"
  from makeRow_SomeD[OF a] obtain label opts
    where l: "ToString (getOpt param ''label'') = Some label"
      and o: "options param = Some opts"
      and d: "desc param label opts = Some (Activity_Description_in_detail r)" by blast
  from desc_SomeD[OF d] obtain key where k: "ToString (getOpt param ''type'') = Some key"
    and e: "Activity_Description_in_detail r = memberText (fieldLogic label) key @
          (if opts \<noteq> [] then '' Available Options: '' @ bullet @ '' '' @ opts else [])"
    by blast
  from options_SomeD[OF o] obtain texts where t: "elementTexts (optionNames param) = Some texts"
    and j: "opts = joinWith ('' '' @ bullet @ '' '') texts" by blast
  show "\<exists>label key texts.
          ToString (getOpt param ''label'') = Some label
        \<and> ToString (getOpt param ''type'') = Some key
        \<and> elementTexts (optionNames param) = Some texts
        \<and> options param = Some (joinWith ('' '' @ bullet @ '' '') texts)
        \<and> Activity_Description_in_detail r =
             memberText (fieldLogic label) key @
             (if joinWith ('' '' @ bullet @ '' '') texts = [] then []
              else '' Available Options: '' @ bullet @ '' ''
                   @ joinWith ('' '' @ bullet @ '' '') texts)"
    apply (rule exI[of _ label])
    apply (rule exI[of _ key])
    apply (rule exI[of _ texts])
    using l k t o e j by simp
next
  assume "\<not> nullish param \<and> \<not> isArray (getOpt param ''data'')
        \<and> \<not> isArray (getOpt (getOpt param ''data'') ''choices'')"
  then show "optionNames param = []" "options param = Some []"
    by (simp_all add: options_def get_def optionNames_def optionEntries_def)
next
  show "elementTexts (map JStr names) = Some names" by (rule elementTexts_strings)
qed

theorem options_suffix_witness:
  "optionNames priorityParam = map JStr [''Low'', ''High'']
   \<and> (\<exists>r. makeRow (JStr ''Review'') (JStr ''Approve'') priorityParam = Some r
        \<and> Activity_Description_in_detail r
            = ''Performer selects if Priority. Available Options: '' @ bullet @ '' Low ''
              @ bullet @ '' High'')
   \<and> \<not> nullish dateParam \<and> \<not> isArray (getOpt dateParam ''data'')
   \<and> \<not> isArray (getOpt (getOpt dateParam ''data'') ''choices'')
   \<and> options dateParam = Some []"
proof -
  note t = options_suffix[of "JStr ''Review''" "JStr ''Approve''" priorityParam "[''Low'', ''High'']"]
  note u = options_suffix[of _ _ dateParam, THEN conjunct2, THEN conjunct1]
  have n: "optionNames priorityParam = map JStr [''Low'', ''High'']"
    by (simp add: priorityParam_def optionNames_def optionEntries_def elems_def)
  from makeRow_total[OF isParameter_priority] obtain r
    where r: "makeRow (JStr ''Review'') (JStr ''Approve'') priorityParam = Some r" by blast
  from t[THEN conjunct2, THEN conjunct2] n
  have tx: "elementTexts (optionNames priorityParam) = Some [''Low'', ''High'']" by simp
  have "\<exists>label key texts.
          ToString (getOpt priorityParam ''label'') = Some label
        \<and> ToString (getOpt priorityParam ''type'') = Some key
        \<and> elementTexts (optionNames priorityParam) = Some texts
        \<and> Activity_Description_in_detail r =
             memberText (fieldLogic label) key @
             (if joinWith ('' '' @ bullet @ '' '') texts = [] then []
              else '' Available Options: '' @ bullet @ '' ''
                   @ joinWith ('' '' @ bullet @ '' '') texts)"
    using t[THEN conjunct1, rule_format, OF r] by blast
  then have d: "Activity_Description_in_detail r
            = ''Performer selects if Priority. Available Options: '' @ bullet @ '' Low ''
              @ bullet @ '' High''"
    unfolding tx by (auto simp: priorityParam_def memberText_def fieldLogic_def)
  have s: "\<not> nullish dateParam \<and> \<not> isArray (getOpt dateParam ''data'')
        \<and> \<not> isArray (getOpt (getOpt dateParam ''data'') ''choices'')"
    by (simp add: dateParam_def nullish_def)
  from u s have "options dateParam = Some []" by blast
  with n r d s show ?thesis by blast
qed

theorem options_suffix_counterexample:
  "optionNames emptyNameParam = [JStr []]
   \<and> map_option Activity_Description_in_detail
        (makeRow (JStr ''Review'') (JStr ''Approve'') emptyNameParam)
       = Some ''Performer selects if P.''"
  by (simp add: emptyNameParam_def optionNames_def optionEntries_def elems_def
      makeRow_eval eval_defs)

lemma isParameter_selfVerified: "isParameter selfVerifiedParam"
  by (simp add: selfVerifiedParam_def isParameter_def isData_def optionalArray_def nullish_def)

lemma makeRow_verification:
  assumes "makeRow stage task param = Some r"
  shows "Verification_Status r =
           (if getOpt param ''verificationType'' = JStr ''SELF''
               \<or> getOpt param ''verificationType'' = JStr ''BOTH''
            then ''Enabled'' else ''Disabled'')"
    and "Verification_B_Status r =
           (if getOpt param ''verificationType'' = JStr ''BOTH'' then ''Enabled'' else ''Disabled'')"
  using assms unfolding makeRow_def by (auto simp: bind_eq_Some_conv)

text \<open>
  C6. Verification Status is \<^verbatim>\<open>Enabled\<close> when \<^verbatim>\<open>verificationType\<close> is \<^verbatim>\<open>"SELF"\<close> or
  \<^verbatim>\<open>"BOTH"\<close> and \<^verbatim>\<open>Disabled\<close> otherwise; Verification B Status is \<^verbatim>\<open>Enabled\<close> when
  it is \<^verbatim>\<open>"BOTH"\<close> and \<^verbatim>\<open>Disabled\<close> otherwise. A parameter without the property has
  both \<^verbatim>\<open>Disabled\<close>. A parameter of the data model always has its row.
\<close>

theorem verification_status:
  "(isParameter param \<longrightarrow> (\<exists>r. makeRow stage task param = Some r))
   \<and> (\<forall>r. makeRow stage task param = Some r \<longrightarrow>
        Verification_Status r =
          (if getOpt param ''verificationType'' = JStr ''SELF''
              \<or> getOpt param ''verificationType'' = JStr ''BOTH''
           then ''Enabled'' else ''Disabled'')
      \<and> Verification_B_Status r =
          (if getOpt param ''verificationType'' = JStr ''BOTH'' then ''Enabled'' else ''Disabled''))
   \<and> (\<forall>r kvs. makeRow stage task param = Some r \<and> param = JObj kvs
          \<and> map_of kvs ''verificationType'' = None \<longrightarrow>
        Verification_Status r = ''Disabled'' \<and> Verification_B_Status r = ''Disabled'')"
proof (intro conjI allI impI)
  assume "isParameter param"
  then show "\<exists>r. makeRow stage task param = Some r" by (rule makeRow_total)
next
  fix r
  assume a: "makeRow stage task param = Some r"
  show "Verification_Status r =
          (if getOpt param ''verificationType'' = JStr ''SELF''
              \<or> getOpt param ''verificationType'' = JStr ''BOTH''
           then ''Enabled'' else ''Disabled'')"
    by (rule makeRow_verification(1)[OF a])
  show "Verification_B_Status r =
          (if getOpt param ''verificationType'' = JStr ''BOTH'' then ''Enabled'' else ''Disabled'')"
    by (rule makeRow_verification(2)[OF a])
next
  fix r kvs
  assume a: "makeRow stage task param = Some r \<and> param = JObj kvs
          \<and> map_of kvs ''verificationType'' = None"
  then have g: "getOpt param ''verificationType'' = JUndefined" by simp
  from a have m: "makeRow stage task param = Some r" by blast
  show "Verification_Status r = ''Disabled''"
    using makeRow_verification(1)[OF m] g by simp
  show "Verification_B_Status r = ''Disabled''"
    using makeRow_verification(2)[OF m] g by simp
qed

theorem verification_status_witness:
  "isParameter selfVerifiedParam
   \<and> (\<exists>r. makeRow (JStr ''Review'') (JStr ''Approve'') selfVerifiedParam = Some r
        \<and> Verification_Status r = ''Enabled'' \<and> Verification_B_Status r = ''Disabled'')
   \<and> (\<exists>r kvs. makeRow (JStr ''Review'') (JStr ''Approve'') dateParam = Some r
        \<and> dateParam = JObj kvs \<and> map_of kvs ''verificationType'' = None
        \<and> Verification_Status r = ''Disabled'' \<and> Verification_B_Status r = ''Disabled'')"
proof -
  note t = verification_status[of selfVerifiedParam "JStr ''Review''" "JStr ''Approve''"]
  note u = verification_status[of dateParam "JStr ''Review''" "JStr ''Approve''"]
  from t[THEN conjunct1] isParameter_selfVerified obtain r
    where r: "makeRow (JStr ''Review'') (JStr ''Approve'') selfVerifiedParam = Some r" by blast
  from t[THEN conjunct2, THEN conjunct1, rule_format, OF r]
  have v: "Verification_Status r = ''Enabled'' \<and> Verification_B_Status r = ''Disabled''"
    by (simp add: selfVerifiedParam_def)
  have "isParameter dateParam"
    by (simp add: dateParam_def isParameter_def isData_def optionalArray_def nullish_def)
  with u[THEN conjunct1] obtain r'
    where r': "makeRow (JStr ''Review'') (JStr ''Approve'') dateParam = Some r'" by blast
  have k: "dateParam = JObj [(''label'', JStr ''B''), (''type'', JStr ''DATE'')]
           \<and> map_of [(''label'', JStr ''B''), (''type'', JStr ''DATE'')] ''verificationType'' = None"
    by (simp add: dateParam_def)
  from u[THEN conjunct2, THEN conjunct2, rule_format,
      of r' "[(''label'', JStr ''B''), (''type'', JStr ''DATE'')]"] r' k
  have "Verification_Status r' = ''Disabled'' \<and> Verification_B_Status r' = ''Disabled''"
    by blast
  with r r' v k isParameter_selfVerified show ?thesis by blast
qed

lemma getOpt_without_rules:
  "k \<noteq> ''rules'' \<Longrightarrow>
   getOpt (JObj (before @ (''rules'', v) # after)) k = getOpt (JObj (before @ after)) k"
  by (simp add: map_add_def split: option.splits)

lemma rules_absent:
  "map_of kvs ''rules'' = None \<Longrightarrow> rules (JObj kvs) label = Some []"
  by (simp add: rules_def get_def nullish_def)

lemma rules_empty_array:
  "map_of (before @ after) ''rules'' = None \<Longrightarrow>
   rules (JObj (before @ (''rules'', JArr []) # after)) label = Some []"
  by (simp add: rules_def get_def nullish_def map_add_def split: option.splits)

text \<open>
  C7. A parameter without a \<^verbatim>\<open>rules\<close> key and the same parameter with
  \<^verbatim>\<open>rules: []\<close> have the same row, and its Validations / Conditions field is the
  empty string.
\<close>

theorem empty_rules:
  "map_of (before @ after) ''rules'' = None \<longrightarrow>
     makeRow stage task (JObj (before @ (''rules'', JArr []) # after))
       = makeRow stage task (JObj (before @ after))
   \<and> (\<forall>r. makeRow stage task (JObj (before @ after)) = Some r \<longrightarrow>
          Validations_Conditions r = [])"
proof (intro impI conjI allI)
  assume a: "map_of (before @ after) ''rules'' = None"
  have o: "options (JObj (before @ (''rules'', JArr []) # after)) = options (JObj (before @ after))"
    by (simp add: options_def get_def nullish_def getOpt_without_rules del: getOpt.simps)
  have d: "desc (JObj (before @ (''rules'', JArr []) # after)) label opts
             = desc (JObj (before @ after)) label opts" for label opts
    by (simp add: desc_def get_def nullish_def getOpt_without_rules del: getOpt.simps)
  have r: "rules (JObj (before @ (''rules'', JArr []) # after)) label
             = rules (JObj (before @ after)) label" for label
    using rules_absent[OF a] rules_empty_array[OF a] by simp
  show "makeRow stage task (JObj (before @ (''rules'', JArr []) # after))
       = makeRow stage task (JObj (before @ after))"
    unfolding makeRow_eval o d r by (simp add: getOpt_without_rules del: getOpt.simps)
next
  fix r
  assume a: "map_of (before @ after) ''rules'' = None"
    and m: "makeRow stage task (JObj (before @ after)) = Some r"
  from makeRow_SomeD[OF m] obtain label
    where "rules (JObj (before @ after)) label = Some (Validations_Conditions r)" by blast
  with rules_absent[OF a, of label] show "Validations_Conditions r = []" by simp
qed

theorem empty_rules_witness:
  "map_of ([(''label'', JStr ''B'')] @ [(''type'', JStr ''DATE'')]) ''rules'' = None
   \<and> makeRow (JStr ''Review'') (JStr ''Approve'')
        (JObj [(''label'', JStr ''B''), (''rules'', JArr []), (''type'', JStr ''DATE'')])
       = makeRow (JStr ''Review'') (JStr ''Approve'') dateParam
   \<and> (\<exists>r. makeRow (JStr ''Review'') (JStr ''Approve'') dateParam = Some r
         \<and> Validations_Conditions r = [])"
proof -
  note t = empty_rules[of "[(''label'', JStr ''B'')]" "[(''type'', JStr ''DATE'')]"
      "JStr ''Review''" "JStr ''Approve''"]
  have h: "map_of ([(''label'', JStr ''B'')] @ [(''type'', JStr ''DATE'')]) ''rules'' = None"
    by simp
  have p: "JObj ([(''label'', JStr ''B'')] @ [(''type'', JStr ''DATE'')]) = dateParam"
    by (simp add: dateParam_def)
  have "isParameter dateParam"
    by (simp add: dateParam_def isParameter_def isData_def optionalArray_def nullish_def)
  from makeRow_total[OF this] obtain r
    where r: "makeRow (JStr ''Review'') (JStr ''Approve'') dateParam = Some r" by blast
  from t h have e: "makeRow (JStr ''Review'') (JStr ''Approve'')
        (JObj ([(''label'', JStr ''B'')] @ (''rules'', JArr []) # [(''type'', JStr ''DATE'')]))
       = makeRow (JStr ''Review'') (JStr ''Approve'')
           (JObj ([(''label'', JStr ''B'')] @ [(''type'', JStr ''DATE'')]))"
    and v: "\<forall>r. makeRow (JStr ''Review'') (JStr ''Approve'')
           (JObj ([(''label'', JStr ''B'')] @ [(''type'', JStr ''DATE'')])) = Some r
         \<longrightarrow> Validations_Conditions r = []"
    by blast+
  from v r have "Validations_Conditions r = []" unfolding p by blast
  with e r h show ?thesis unfolding p by simp
qed

lemma map_js_None: "x \<in> set xs \<Longrightarrow> f x = None \<Longrightarrow> map_js f xs = None"
  by (induction xs) (auto split: bind_splits)

lemma processWorkflow_throws:
  assumes "c \<in> set (contexts w)" and "rowOf c = None"
  shows "processWorkflow w acc = None"
proof (cases "processWorkflow w acc")
  case None
  then show ?thesis .
next
  case (Some rows)
  from processWorkflow_contexts[OF Some] map_js_None[of c "contexts w" rowOf] assms
  show ?thesis by simp
qed

lemma processAll_throws:
  assumes "w \<in> set wfs" and "processWorkflow w [] = None"
  shows "processAll wfs = None"
proof -
  from assms(1) obtain as bs where wfs: "wfs = as @ ([w] @ bs)"
    by (auto simp: in_set_conv_decomp)
  have "processAll [w] = None" using assms(2) by (simp add: processAll_def)
  then have "processAll ([w] @ bs) = None" unfolding processAll_append by simp
  then show ?thesis unfolding wfs processAll_append[of as] by (simp split: bind_splits)
qed

lemma processAll_total:
  assumes "list_all isWorkflow wfs"
  shows "\<exists>rows. processAll wfs = Some rows"
  unfolding processAll_def
  by (rule forEach_total) (use assms processWorkflow_total in \<open>auto simp: list_all_iff\<close>)

text \<open>
  C8 (as the code has it). On workflows that have the shapes of the data model, absent
  properties included, the traversal throws nothing and returns its rows. A parameter
  on which \<^verbatim>\<open>makeRow\<close> throws is not skipped: the exception leaves every loop, and the
  whole sequence of workflows yields no rows.
\<close>

theorem traversal_errors:
  "(list_all isWorkflow wfs \<longrightarrow> (\<exists>rows. processAll wfs = Some rows))
   \<and> (\<forall>w c. w \<in> set wfs \<and> c \<in> set (contexts w) \<and> rowOf c = None \<longrightarrow>
         processAll wfs = None)"
proof (intro conjI allI impI)
  assume "list_all isWorkflow wfs"
  then show "\<exists>rows. processAll wfs = Some rows" by (rule processAll_total)
next
  fix w c
  assume a: "w \<in> set wfs \<and> c \<in> set (contexts w) \<and> rowOf c = None"
  then have "processWorkflow w [] = None" using processWorkflow_throws by blast
  with a show "processAll wfs = None" using processAll_throws by blast
qed

theorem traversal_errors_witness:
  "list_all isWorkflow [exampleWorkflow, exampleWorkflow]
   \<and> (\<exists>rows. processAll [exampleWorkflow, exampleWorkflow] = Some rows)
   \<and> nullEntryWorkflow \<in> set [exampleWorkflow, nullEntryWorkflow]
   \<and> (JStr ''Create Job Form'', JStr ''A'',
        JObj [(''label'', JStr ''A''), (''type'', JStr ''DATE''), (''data'', JArr [JNull])])
       \<in> set (contexts nullEntryWorkflow)
   \<and> rowOf (JStr ''Create Job Form'', JStr ''A'',
        JObj [(''label'', JStr ''A''), (''type'', JStr ''DATE''), (''data'', JArr [JNull])])
       = None
   \<and> processAll [exampleWorkflow, nullEntryWorkflow] = None"
proof -
  note t = traversal_errors[of "[exampleWorkflow, exampleWorkflow]"]
  note u = traversal_errors[of "[exampleWorkflow, nullEntryWorkflow]"]
  let ?c = "(JStr ''Create Job Form'', JStr ''A'',
        JObj [(''label'', JStr ''A''), (''type'', JStr ''DATE''), (''data'', JArr [JNull])])"
  have ok: "list_all isWorkflow [exampleWorkflow, exampleWorkflow]"
    using isWorkflow_example by simp
  with t have run: "\<exists>rows. processAll [exampleWorkflow, exampleWorkflow] = Some rows" by blast
  have m: "nullEntryWorkflow \<in> set [exampleWorkflow, nullEntryWorkflow]" by simp
  have c: "?c \<in> set (contexts nullEntryWorkflow)"
    by (simp add: nullEntryWorkflow_def contexts_def formContexts_def elems_def)
  have n: "rowOf ?c = None"
    by (simp add: rowOf_def makeRow_eval options_def get_def nullish_def)
  from u m c n have "processAll [exampleWorkflow, nullEntryWorkflow] = None" by blast
  with ok run m c n show ?thesis by blast
qed

theorem traversal_errors_counterexample:
  "processAll [nullEntryWorkflow] = None
   \<and> processAll [JObj [(''parameterRequests'', JArr [dateParam])]] \<noteq> None"
  by (simp add: processAll_def processWorkflow_def nullEntryWorkflow_def dateParam_def
      formStep_def makeRow_eval eval_defs)

lemma memberText_missing:
  assumes "key \<notin> set recognizedTypes" and "key \<notin> set inheritedNames"
  shows "memberText (fieldLogic label) key = ''undefined''"
  using assms
  by (simp add: memberText_def fieldLogic_def recognizedTypes_def inheritedNames_def
      objectPrototype_def)

text \<open>
  C10 (as the code has it). When the type of a parameter, as a property key, is neither
  one of the nine template keys nor a name that Object.prototype defines, the
  description begins with \<^verbatim>\<open>undefined\<close>, and it is exactly \<^verbatim>\<open>undefined\<close> when the
  options text is empty.
\<close>

theorem unknown_type:
  "\<forall>r key. makeRow stage task param = Some r
       \<and> ToString (getOpt param ''type'') = Some key
       \<and> key \<notin> set recognizedTypes \<and> key \<notin> set inheritedNames \<longrightarrow>
     take 9 (Activity_Description_in_detail r) = ''undefined''
     \<and> (options param = Some [] \<longrightarrow> Activity_Description_in_detail r = ''undefined'')"
proof (intro allI impI)
  fix r key
  assume a: "makeRow stage task param = Some r
       \<and> ToString (getOpt param ''type'') = Some key
       \<and> key \<notin> set recognizedTypes \<and> key \<notin> set inheritedNames"
  from makeRow_SomeD[of stage task param r] a obtain label opts
    where o: "options param = Some opts"
      and d: "desc param label opts = Some (Activity_Description_in_detail r)" by blast
  from desc_SomeD[OF d] a memberText_missing[of key label]
  have e: "Activity_Description_in_detail r = ''undefined'' @
          (if opts \<noteq> [] then '' Available Options: '' @ bullet @ '' '' @ opts else [])"
    by auto
  show "take 9 (Activity_Description_in_detail r) = ''undefined''
     \<and> (options param = Some [] \<longrightarrow> Activity_Description_in_detail r = ''undefined'')"
    using e o by simp
qed

theorem unknown_type_witness:
  "ToString (getOpt sliderParam ''type'') = Some ''SLIDER''
   \<and> ''SLIDER'' \<notin> set recognizedTypes \<and> ''SLIDER'' \<notin> set inheritedNames
   \<and> (\<exists>r. makeRow (JStr ''Review'') (JStr ''Approve'') sliderParam = Some r
        \<and> take 9 (Activity_Description_in_detail r) = ''undefined'')"
proof -
  note t = unknown_type[of "JStr ''Review''" "JStr ''Approve''" sliderParam]
  have k: "ToString (getOpt sliderParam ''type'') = Some ''SLIDER''"
    by (simp add: sliderParam_def)
  have n: "''SLIDER'' \<notin> set recognizedTypes \<and> ''SLIDER'' \<notin> set inheritedNames"
    by (simp add: recognizedTypes_def inheritedNames_def objectPrototype_def)
  have "isParameter sliderParam"
    by (simp add: sliderParam_def isParameter_def isData_def isOptionEntry_def
        optionalArray_def nullish_def elems_def)
  from makeRow_total[OF this] obtain r
    where r: "makeRow (JStr ''Review'') (JStr ''Approve'') sliderParam = Some r" by blast
  from t[rule_format, of r "''SLIDER''"] r k n
  have "take 9 (Activity_Description_in_detail r) = ''undefined''" by blast
  with k n r show ?thesis by blast
qed

theorem unknown_type_counterexample:
  "getOpt constructorParam ''type'' = JStr ''constructor''
   \<and> ''constructor'' \<notin> set recognizedTypes
   \<and> options constructorParam = Some []
   \<and> map_option (\<lambda>r. take 9 (Activity_Description_in_detail r))
        (makeRow (JStr ''Review'') (JStr ''Approve'') constructorParam)
       = Some ''function ''"
  by (simp add: constructorParam_def recognizedTypes_def makeRow_eval eval_defs)

section \<open>Rules read off arbitrary rule objects\<close>

lemma joinOpt_listView: "joinOpt v = Some a \<longleftrightarrow> (\<exists>i. listView v i \<and> a = listText i)"
proof
  assume j: "joinOpt v = Some a"
  show "\<exists>i. listView v i \<and> a = listText i"
  proof (cases "nullish v")
    case True
    with j have "listView v None \<and> a = listText None" by (simp add: joinOpt_def)
    then show ?thesis by blast
  next
    case False
    with j obtain es ss where "v = JArr es" "elementTexts es = Some ss" "a = joinWith '', '' ss"
      by (cases v) (auto simp: joinOpt_def join_def)
    then have "listView v (Some ss) \<and> a = listText (Some ss)" by simp
    then show ?thesis by blast
  qed
next
  assume "\<exists>i. listView v i \<and> a = listText i"
  then obtain i where v: "listView v i" and a: "a = listText i" by blast
  show "joinOpt v = Some a"
  proof (cases i)
    case None
    with v a show ?thesis by (simp add: joinOpt_def)
  next
    case (Some xs)
    with v a show ?thesis
      by (cases v) (simp_all add: joinOpt_def join_def nullish_def)
  qed
qed

lemma ruleText_ruleView:
  "ruleText label v = Some t \<longleftrightarrow> (\<exists>ru. ruleView v ru \<and> t = renderedRule label ru)"
proof
  assume "ruleText label v = Some t"
  then obtain a b where n: "\<not> nullish v" and a: "joinOpt (getOpt v ''input'') = Some a"
    and b: "joinOpt (getOpt (getOpt v ''show'') ''parameters'') = Some b"
    and t: "t = ''Visible if ['' @ label @ ''] is ['' @ a @ '']. Shows parameters: ['' @ b @ '']''"
    unfolding ruleText_def get_def by (auto simp: bind_eq_Some_conv split: if_splits)
  from a obtain i where i: "listView (getOpt v ''input'') i" "a = listText i"
    unfolding joinOpt_listView by blast
  from b obtain s where s: "listView (getOpt (getOpt v ''show'') ''parameters'') s" "b = listText s"
    unfolding joinOpt_listView by blast
  have "ruleView v (Rule i s) \<and> t = renderedRule label (Rule i s)"
    using n i s t by (simp add: renderedRule_def)
  then show "\<exists>ru. ruleView v ru \<and> t = renderedRule label ru" by blast
next
  assume "\<exists>ru. ruleView v ru \<and> t = renderedRule label ru"
  then obtain ru where v: "ruleView v ru" and t: "t = renderedRule label ru" by blast
  obtain i s where ru: "ru = Rule i s" by (cases ru)
  from v ru have n: "\<not> nullish v" and i: "listView (getOpt v ''input'') i"
    and s: "listView (getOpt (getOpt v ''show'') ''parameters'') s" by simp_all
  from i have a: "joinOpt (getOpt v ''input'') = Some (listText i)"
    unfolding joinOpt_listView by blast
  from s have b: "joinOpt (getOpt (getOpt v ''show'') ''parameters'') = Some (listText s)"
    unfolding joinOpt_listView by blast
  show "ruleText label v = Some t"
    using n a b t ru by (simp add: ruleText_def get_def renderedRule_def)
qed

lemma map_js_ruleView:
  "map_js (ruleText label) vs = Some texts \<longleftrightarrow>
     (\<exists>rs. list_all2 ruleView vs rs \<and> texts = map (renderedRule label) rs)"
proof (induction vs arbitrary: texts)
  case Nil
  then show ?case by auto
next
  case (Cons v vs)
  show ?case
  proof
    assume "map_js (ruleText label) (v # vs) = Some texts"
    then obtain t ts where t: "ruleText label v = Some t"
      and ts: "map_js (ruleText label) vs = Some ts" and e: "texts = t # ts"
      by (auto simp: bind_eq_Some_conv)
    from t obtain ru where ru: "ruleView v ru" "t = renderedRule label ru"
      unfolding ruleText_ruleView by blast
    from ts obtain rs where rs: "list_all2 ruleView vs rs" "ts = map (renderedRule label) rs"
      unfolding Cons.IH by blast
    have "list_all2 ruleView (v # vs) (ru # rs) \<and> texts = map (renderedRule label) (ru # rs)"
      using ru rs e by simp
    then show "\<exists>rs. list_all2 ruleView (v # vs) rs \<and> texts = map (renderedRule label) rs"
      by blast
  next
    assume "\<exists>rs. list_all2 ruleView (v # vs) rs \<and> texts = map (renderedRule label) rs"
    then obtain rs where l: "list_all2 ruleView (v # vs) rs"
      and e: "texts = map (renderedRule label) rs" by blast
    from l obtain ru rs' where rs: "rs = ru # rs'" and ru: "ruleView v ru"
      and l': "list_all2 ruleView vs rs'" by (auto simp: list_all2_Cons1)
    have t: "ruleText label v = Some (renderedRule label ru)"
      unfolding ruleText_ruleView using ru by blast
    have ts: "map_js (ruleText label) vs = Some (map (renderedRule label) rs')"
      unfolding Cons.IH using l' by blast
    show "map_js (ruleText label) (v # vs) = Some texts"
      using t ts e rs by simp
  qed
qed

lemma rules_ruleView:
  assumes "\<not> nullish param"
    and "getOpt param ''rules'' = JArr vs \<or> (\<not> truthy (getOpt param ''rules'') \<and> vs = [])"
    and "list_all2 ruleView vs rs"
  shows "rules param label = Some (joinWith ''; '' (map (renderedRule label) rs))"
proof -
  from assms(2) have x: "(if truthy (getOpt param ''rules'') then arrayOf (getOpt param ''rules'')
                          else Some []) = Some vs"
    by auto
  have m: "map_js (ruleText label) vs = Some (map (renderedRule label) rs)"
    unfolding map_js_ruleView using assms(3) by blast
  show ?thesis using assms(1) x m by (simp add: rules_def get_def)
qed

lemma rules_SomeD:
  assumes "rules param label = Some t"
  shows "\<exists>rs. list_all2 ruleView (elems (getOpt param ''rules'')) rs
           \<and> t = joinWith ''; '' (map (renderedRule label) rs)"
proof -
  let ?v = "getOpt param ''rules''"
  from assms obtain vs texts where x: "(if truthy ?v then arrayOf ?v else Some []) = Some vs"
    and m: "map_js (ruleText label) vs = Some texts" and t: "t = joinWith ''; '' texts"
    unfolding rules_def get_def by (auto simp: bind_eq_Some_conv split: if_splits)
  have "vs = elems ?v"
  proof (cases "truthy ?v")
    case True
    with x show ?thesis by (cases ?v) (simp_all add: elems_def)
  next
    case False
    with x show ?thesis by (cases ?v) (simp_all add: elems_def)
  qed
  with m t show ?thesis unfolding map_js_ruleView by blast
qed

text \<open>
  C5 (as the code has it). For every parameter and every rule object of its rules,
  whatever other keys the rule holds, the rendered rule is
  \<^verbatim>\<open>Visible if [l] is [input joined by ", "]. Shows parameters: [show.parameters joined
  by ", "]\<close> with the text \<open>l\<close> of the label of the owning parameter, and the rendered
  rules are joined with \<^verbatim>\<open>"; "\<close>. A missing \<^verbatim>\<open>input\<close>, \<^verbatim>\<open>show\<close> or
  \<^verbatim>\<open>show.parameters\<close> is no error: the text between its brackets is \<^verbatim>\<open>undefined\<close>.
\<close>

theorem rule_rendering:
  "(\<not> nullish param
      \<and> (getOpt param ''rules'' = JArr vs \<or> (\<not> truthy (getOpt param ''rules'') \<and> vs = []))
      \<and> list_all2 ruleView vs rs \<longrightarrow>
      rules param l = Some (joinWith ''; '' (map (renderedRule l) rs)))
   \<and> (\<forall>r. makeRow stage task param = Some r \<longrightarrow>
        (\<exists>label rs. ToString (getOpt param ''label'') = Some label
           \<and> list_all2 ruleView (elems (getOpt param ''rules'')) rs
           \<and> Validations_Conditions r = joinWith ''; '' (map (renderedRule label) rs)))
   \<and> (\<forall>v t. ruleText l v = Some t \<longleftrightarrow> (\<exists>ru. ruleView v ru \<and> t = renderedRule l ru))
   \<and> renderedRule l (Rule (Some is) (Some ps)) =
        ''Visible if ['' @ l @ ''] is ['' @ joinWith '', '' is @ '']. Shows parameters: [''
          @ joinWith '', '' ps @ '']''
   \<and> renderedRule l (Rule None None) =
        ''Visible if ['' @ l @ ''] is [undefined]. Shows parameters: [undefined]''
   \<and> elementTexts (map JStr is) = Some is"
proof (intro conjI allI impI)
  assume "\<not> nullish param
      \<and> (getOpt param ''rules'' = JArr vs \<or> (\<not> truthy (getOpt param ''rules'') \<and> vs = []))
      \<and> list_all2 ruleView vs rs"
  then show "rules param l = Some (joinWith ''; '' (map (renderedRule l) rs))"
    using rules_ruleView by blast
next
  fix r
  assume a: "makeRow stage task param = Some r"
  from makeRow_SomeD[OF a] obtain label
    where l: "ToString (getOpt param ''label'') = Some label"
      and v: "rules param label = Some (Validations_Conditions r)" by blast
  from rules_SomeD[OF v] l
  show "\<exists>label rs. ToString (getOpt param ''label'') = Some label
           \<and> list_all2 ruleView (elems (getOpt param ''rules'')) rs
           \<and> Validations_Conditions r = joinWith ''; '' (map (renderedRule label) rs)"
    by blast
next
  fix v t
  show "ruleText l v = Some t \<longleftrightarrow> (\<exists>ru. ruleView v ru \<and> t = renderedRule l ru)"
    by (rule ruleText_ruleView)
next
  show "renderedRule l (Rule (Some is) (Some ps)) =
        ''Visible if ['' @ l @ ''] is ['' @ joinWith '', '' is @ '']. Shows parameters: [''
          @ joinWith '', '' ps @ '']''"
    by (simp add: renderedRule_def)
next
  show "renderedRule l (Rule None None) =
        ''Visible if ['' @ l @ ''] is [undefined]. Shows parameters: [undefined]''"
    by (simp add: renderedRule_def)
next
  show "elementTexts (map JStr is) = Some is" by (rule elementTexts_strings)
qed


theorem rule_rendering_witness:
  "\<not> nullish statusParam
   \<and> list_all2 ruleView (elems (getOpt statusParam ''rules''))
        [Rule (Some [''Yes'']) (Some [''Comment'']), Rule None None]
   \<and> (\<exists>r. makeRow (JStr ''Review'') (JStr ''Approve'') statusParam = Some r
        \<and> Validations_Conditions r
            = ''Visible if [Status] is [Yes]. Shows parameters: [Comment]; Visible if [Status] is [undefined]. Shows parameters: [undefined]'')"
proof -
  let ?vs = "elems (getOpt statusParam ''rules'')"
  let ?rs = "[Rule (Some [''Yes'']) (Some [''Comment'']), Rule None None]"
  note t = rule_rendering[of statusParam ?vs ?rs "''Status''"]
  have n: "\<not> nullish statusParam" by (simp add: statusParam_def nullish_def)
  have g: "getOpt statusParam ''rules'' = JArr ?vs" by (simp add: statusParam_def elems_def)
  have v: "list_all2 ruleView ?vs ?rs"
    by (simp add: statusParam_def elems_def nullish_def)
  from t[THEN conjunct1] n g v
  have rl: "rules statusParam ''Status''
              = Some (joinWith ''; '' (map (renderedRule ''Status'') ?rs))"
    by blast
  have l: "ToString (getOpt statusParam ''label'') = Some ''Status''"
    by (simp add: statusParam_def)
  have "isParameter statusParam"
    by (simp add: statusParam_def isParameter_def isData_def isRule_def optionalArray_def
        nullish_def elems_def)
  from makeRow_total[OF this] obtain r
    where r: "makeRow (JStr ''Review'') (JStr ''Approve'') statusParam = Some r" by blast
  from makeRow_SomeD[OF r] l rl
  have "Validations_Conditions r = joinWith ''; '' (map (renderedRule ''Status'') ?rs)"
    by auto
  then have "Validations_Conditions r
            = ''Visible if [Status] is [Yes]. Shows parameters: [Comment]; Visible if [Status] is [undefined]. Shows parameters: [undefined]''"
    by (simp add: renderedRule_def)
  with n v r show ?thesis by blast
qed

theorem rule_rendering_counterexample:
  "getOpt bareRuleParam ''rules'' = JArr [JObj []]
   \<and> map_option Validations_Conditions
        (makeRow (JStr ''Review'') (JStr ''Approve'') bareRuleParam)
       = Some ''Visible if [Status] is [undefined]. Shows parameters: [undefined]''"
  by (simp add: bareRuleParam_def makeRow_eval eval_defs)

text \<open>
  The description of a parameter with a recognized type and one option entry, whose
  name is the empty string.
\<close>

theorem description_template_counterexample:
  "getOpt emptyNameParam ''type'' = JStr ''SINGLE_SELECT''
   \<and> ''SINGLE_SELECT'' \<in> set recognizedTypes
   \<and> optionEntries emptyNameParam = [JObj [(''name'', JStr [])]]
   \<and> makeRow (JStr ''Review'') (JStr ''Approve'') emptyNameParam \<noteq> None
   \<and> map_option Activity_Description_in_detail
        (makeRow (JStr ''Review'') (JStr ''Approve'') emptyNameParam)
       \<noteq> Some (''Performer selects if P.'' @ '' Available Options: '' @ bullet @ '' '')
   \<and> map_option Activity_Description_in_detail
        (makeRow (JStr ''Review'') (JStr ''Approve'') emptyNameParam)
       = Some ''Performer selects if P.''"
  by (simp add: emptyNameParam_def recognizedTypes_def optionEntries_def elems_def
      makeRow_eval eval_defs)

lemma processAll_contexts:
  assumes "processAll wfs = Some rows"
  shows "map_js rowOf (concat (map contexts wfs)) = Some rows"
proof -
  have "\<exists>new. map_js rowOf (concat (map contexts wfs)) = Some new \<and> rows = [] @ new"
    by (rule forEach_contexts[OF _ assms[unfolded processAll_def]])
      (rule processWorkflow_contexts)
  then show ?thesis by simp
qed

lemma isWorkflow_date: "isWorkflow dateWorkflow"
  by (simp add: dateWorkflow_def dateParam_def isWorkflow_def isParameter_def isData_def
      optionalArray_def nullish_def elems_def)

text \<open>
  C9. Processing is compatible with concatenation, and it yields the rows of the
  workflows: the rows of a sequence of workflows are the rows of the contexts of the
  first workflow, then of the second, and so on, so the rows of documents \<open>da\<close>
  followed by \<open>db\<close> are the rows of \<open>da\<close> followed by the rows of \<open>db\<close>.
  Workflows of the data model always yield their rows. When either part throws, so
  does the whole.
\<close>

theorem concatenation:
  "processAll (as @ bs) = do { ra \<leftarrow> processAll as; rb \<leftarrow> processAll bs; Some (ra @ rb) }
   \<and> convert (da @ db) = do { ra \<leftarrow> convert da; rb \<leftarrow> convert db; Some (ra @ rb) }
   \<and> convert [a, b] = do { ra \<leftarrow> convert [a]; rb \<leftarrow> convert [b]; Some (ra @ rb) }
   \<and> (\<forall>rows. processAll as = Some rows \<longrightarrow>
         map_js rowOf (concat (map contexts as)) = Some rows)
   \<and> (\<forall>rows. convert da = Some rows \<longrightarrow>
         map_js rowOf (concat (map contexts (jsonObjects da))) = Some rows)
   \<and> (\<forall>ra rb. convert da = Some ra \<and> convert db = Some rb \<longrightarrow>
         convert (da @ db) = Some (ra @ rb)
         \<and> map_js rowOf (concat (map contexts (jsonObjects da))) = Some ra
         \<and> map_js rowOf (concat (map contexts (jsonObjects db))) = Some rb)
   \<and> (list_all isWorkflow (jsonObjects da) \<longrightarrow> (\<exists>rows. convert da = Some rows))"
proof -
  have c: "convert (da @ db) = do { ra \<leftarrow> convert da; rb \<leftarrow> convert db; Some (ra @ rb) }"
    for da db
    by (simp add: convert_def jsonObjects_def processAll_append)
  have k: "map_js rowOf (concat (map contexts (jsonObjects da))) = Some rows"
    if "convert da = Some rows" for da rows
    using that processAll_contexts by (simp add: convert_def)
  have t: "\<exists>rows. convert da = Some rows" if "list_all isWorkflow (jsonObjects da)"
    using processAll_total[OF that] by (simp add: convert_def)
  have p: "convert (da @ db) = Some (ra @ rb)"
    if "convert da = Some ra \<and> convert db = Some rb" for ra rb
    using that by (simp add: c)
  show ?thesis
    using c[of "[a]" "[b]"] c[of da db] processAll_append[of as bs] processAll_contexts[of as]
      k t p
    by (intro conjI allI impI) auto
qed

theorem concatenation_witness:
  "list_all isWorkflow (jsonObjects [exampleWorkflow])
   \<and> list_all isWorkflow (jsonObjects [JArr [dateWorkflow]])
   \<and> (\<exists>ra rb. convert [exampleWorkflow] = Some ra \<and> convert [JArr [dateWorkflow]] = Some rb
        \<and> convert [exampleWorkflow, JArr [dateWorkflow]] = Some (ra @ rb)
        \<and> map (\<lambda>r. (Stage_Name r, Activity_Name r)) ra
            = [(JStr ''Create Job Form'', JStr ''Full Name''), (JStr ''Review'', JStr ''Approve'')]
        \<and> map (\<lambda>r. (Stage_Name r, Activity_Name r)) rb
            = [(JStr ''Create Job Form'', JStr ''B'')])"
proof -
  note ta = concatenation[of _ _ "[exampleWorkflow]" "[JArr [dateWorkflow]]"]
  note tb = concatenation[of _ _ "[JArr [dateWorkflow]]" "[exampleWorkflow]"]
  have oa: "list_all isWorkflow (jsonObjects [exampleWorkflow])"
    using isWorkflow_example
    by (simp add: jsonObjects_def documentObjects_def exampleWorkflow_def)
  have ob: "list_all isWorkflow (jsonObjects [JArr [dateWorkflow]])"
    using isWorkflow_date by (simp add: jsonObjects_def documentObjects_def)
  from ta oa obtain ra where ra: "convert [exampleWorkflow] = Some ra" by blast
  from tb ob obtain rb where rb: "convert [JArr [dateWorkflow]] = Some rb" by blast
  from ta ra rb
  have ab: "convert ([exampleWorkflow] @ [JArr [dateWorkflow]]) = Some (ra @ rb)"
    and ka: "map_js rowOf (concat (map contexts (jsonObjects [exampleWorkflow]))) = Some ra"
    and kb: "map_js rowOf (concat (map contexts (jsonObjects [JArr [dateWorkflow]]))) = Some rb"
    by blast+
  have ja: "jsonObjects [exampleWorkflow] = [exampleWorkflow]"
    by (simp add: jsonObjects_def documentObjects_def exampleWorkflow_def)
  have jb: "jsonObjects [JArr [dateWorkflow]] = [dateWorkflow]"
    by (simp add: jsonObjects_def documentObjects_def)
  have la: "map (\<lambda>r. (Stage_Name r, Activity_Name r)) ra
            = [(JStr ''Create Job Form'', JStr ''Full Name''), (JStr ''Review'', JStr ''Approve'')]"
    using rowOf_labels[OF ka] contexts_example by (simp add: ja)
  have "map (\<lambda>(s, t, p). (s, t)) (contexts dateWorkflow) = [(JStr ''Create Job Form'', JStr ''B'')]"
    by (simp add: dateWorkflow_def dateParam_def contexts_def formContexts_def elems_def)
  then have lb: "map (\<lambda>r. (Stage_Name r, Activity_Name r)) rb
            = [(JStr ''Create Job Form'', JStr ''B'')]"
    using rowOf_labels[OF kb] by (simp add: jb)
  from oa ob ra rb ab la lb show ?thesis by auto
qed

end
